theory Spec2Isabelle
  imports Complex_Main "HOL-Library.Sublist"
begin

text \<open>
  The shell of a desktop tool for batches of photo and video files: one component
  (\<^verbatim>\<open>App.tsx\<close>) holds the form state of six operations (rename, delete, compress,
  flatten, EXIF offset, metadata strip) and of the settings page, and talks to the engine
  through the commands of \<^verbatim>\<open>api.ts\<close>. This theory embeds the helpers that parse the
  form texts, the requests the handlers build, and the handlers themselves as functions
  on the state that return the commands they invoke; the engine's answers are
  parameters. The effect that saves the output directories after a pause is embedded
  with its timeouts as state and the passing of time as an event.
\<close>

section \<open>Strings of the user interface\<close>

text \<open>
  The source is TypeScript: a string is a sequence of UTF-16 code units. The model
  covers the code units U+0000 to U+00FF, one \<^typ>\<open>char\<close> each, which is where the
  separators, the dot, the ASCII letters and the Latin-1 letters live. Within this
  range \<^verbatim>\<open>String.prototype.trim\<close> and the regular-expression class \<^verbatim>\<open>\s\<close> treat the
  same seven code units as white space, and \<^verbatim>\<open>toLowerCase\<close> moves A-Z and the
  Latin-1 capitals (U+00C0 to U+00DE without U+00D7) up by 32.
\<close>

definition js_whitespace :: "char \<Rightarrow> bool" where
  "js_whitespace c \<longleftrightarrow> of_char c \<in> {9, 10, 11, 12, 13, 32, 160 :: nat}"

definition trim :: "string \<Rightarrow> string" where
  "trim s = rev (dropWhile js_whitespace (rev (dropWhile js_whitespace s)))"

definition is_upper :: "char \<Rightarrow> bool" where
  "is_upper c \<longleftrightarrow>
     (let n = of_char c :: nat
      in (65 \<le> n \<and> n \<le> 90) \<or> (192 \<le> n \<and> n \<le> 222 \<and> n \<noteq> 215))"

definition lower_unit :: "char \<Rightarrow> char" where
  "lower_unit c = (if is_upper c then char_of (of_char c + 32 :: nat) else c)"

definition toLowerCase :: "string \<Rightarrow> string" where
  "toLowerCase s = map lower_unit s"

text \<open>
  \<^verbatim>\<open>value.split(re)\<close> for a regular expression that never matches the empty string:
  the matcher \<open>m\<close> gives the length of the match that starts at the head of the
  remaining text (0 when there is none); the text between two matches is a piece, and
  the text after the last match is the last piece, so the empty text gives one empty
  piece.
\<close>

fun js_split :: "(string \<Rightarrow> nat) \<Rightarrow> string \<Rightarrow> string \<Rightarrow> string list" where
  "js_split m acc [] = [rev acc]"
| "js_split m acc (c # cs) =
     (if m (c # cs) = 0 then js_split m (c # acc) cs
      else rev acc # js_split m [] (drop (m (c # cs) - 1) cs))"

text \<open>The separator of \<^verbatim>\<open>parsePaths\<close>, \<^verbatim>\<open>/\r?\n|,/g\<close>.\<close>

fun path_sep :: "string \<Rightarrow> nat" where
  "path_sep [] = 0"
| "path_sep [c] = (if c = CHR 0x0A \<or> c = CHR '','' then 1 else 0)"
| "path_sep (c # d # _) =
     (if c = CHR 0x0D \<and> d = CHR 0x0A then 2
      else if c = CHR 0x0A then 1
      else if c = CHR '','' then 1
      else 0)"

text \<open>The separator of \<^verbatim>\<open>parseExts\<close>, \<^verbatim>\<open>/[\r\n,\s]+/g\<close>: a longest run of the class.\<close>

definition ext_sep_char :: "char \<Rightarrow> bool" where
  "ext_sep_char c \<longleftrightarrow> c = CHR 0x0D \<or> c = CHR 0x0A \<or> c = CHR '','' \<or> js_whitespace c"

definition ext_sep :: "string \<Rightarrow> nat" where
  "ext_sep s = length (takeWhile ext_sep_char s)"

text \<open>\<^verbatim>\<open>.filter(Boolean)\<close> on strings keeps the non-empty ones.\<close>

definition truthy :: "string \<Rightarrow> bool" where
  "truthy s \<longleftrightarrow> s \<noteq> []"

definition parsePaths :: "string \<Rightarrow> string list" where
  "parsePaths v = filter truthy (map trim (js_split path_sep [] v))"

text \<open>\<^verbatim>\<open>item.replace(/^\./, "")\<close>: one dot at the very start is removed.\<close>

fun replace_leading_dot :: "string \<Rightarrow> string" where
  "replace_leading_dot [] = []"
| "replace_leading_dot (c # cs) = (if c = CHR ''.'' then cs else c # cs)"

definition parseExts :: "string \<Rightarrow> string list" where
  "parseExts v =
     filter truthy
       (map (\<lambda>item. toLowerCase (replace_leading_dot (trim item))) (js_split ext_sep [] v))"

text \<open>
  \<^verbatim>\<open>Number.parseInt(value, 10)\<close>: leading white space, an optional sign, then the
  longest run of decimal digits; \<open>None\<close> is NaN. The values are exact integers: a
  double holds every integer up to \<open>2 ^ 53\<close> exactly, and above that the source has the
  nearest double where the model has the integer itself. Every use below compares
  with 0, clamps to a small range, or passes the value on.
\<close>

definition is_digit :: "char \<Rightarrow> bool" where
  "is_digit c \<longleftrightarrow> 48 \<le> (of_char c :: nat) \<and> (of_char c :: nat) \<le> 57"

definition digits_value :: "string \<Rightarrow> int" where
  "digits_value ds = foldl (\<lambda>a d. 10 * a + (int (of_char d) - 48)) 0 ds"

definition parseInt10 :: "string \<Rightarrow> int option" where
  "parseInt10 v =
     (let s = dropWhile js_whitespace v;
          neg = (case s of [] \<Rightarrow> False | c # _ \<Rightarrow> c = CHR ''-'');
          rest = (case s of [] \<Rightarrow> [] | c # cs \<Rightarrow> if c = CHR ''-'' \<or> c = CHR ''+'' then cs else s);
          ds = takeWhile is_digit rest
      in if ds = [] then None
         else Some (if neg then - digits_value ds else digits_value ds))"

text \<open>
  \<^verbatim>\<open>Number.isFinite\<close> on the result of \<^verbatim>\<open>parseInt\<close>: the integer that the digits
  denote becomes the nearest double, which is infinite from \<open>2 ^ 1024 - 2 ^ 970\<close> on.
\<close>

definition isFinite :: "int \<Rightarrow> bool" where
  "isFinite n \<longleftrightarrow> - (2 ^ 1024 - 2 ^ 970) < n \<and> n < 2 ^ 1024 - 2 ^ 970"

definition parsePositiveInt :: "string \<Rightarrow> int option" where
  "parsePositiveInt v =
     (case parseInt10 (trim v) of
        None \<Rightarrow> None
      | Some parsed \<Rightarrow> if isFinite parsed \<and> parsed > 0 then Some parsed else None)"

text \<open>
  \<^verbatim>\<open>Number.parseInt(value)\<close> with no radix, as the offset fields call it: after the
  sign, \<^verbatim>\<open>0x\<close> or \<^verbatim>\<open>0X\<close> announces hexadecimal digits; any other text is read in
  base 10.
\<close>

definition hex_digit :: "char \<Rightarrow> int option" where
  "hex_digit c =
     (let n = of_char c :: nat
      in if 48 \<le> n \<and> n \<le> 57 then Some (int n - 48)
         else if 65 \<le> n \<and> n \<le> 70 then Some (int n - 55)
         else if 97 \<le> n \<and> n \<le> 102 then Some (int n - 87)
         else None)"

definition hex_value :: "string \<Rightarrow> int" where
  "hex_value ds = foldl (\<lambda>a d. 16 * a + (case hex_digit d of None \<Rightarrow> 0 | Some h \<Rightarrow> h)) 0 ds"

definition parseInt :: "string \<Rightarrow> int option" where
  "parseInt v =
     (let s = dropWhile js_whitespace v;
          neg = (case s of [] \<Rightarrow> False | c # _ \<Rightarrow> c = CHR ''-'');
          rest = (case s of [] \<Rightarrow> [] | c # cs \<Rightarrow> if c = CHR ''-'' \<or> c = CHR ''+'' then cs else s)
      in if take 2 rest = ''0x'' \<or> take 2 rest = ''0X''
         then (let ds = takeWhile (\<lambda>c. hex_digit c \<noteq> None) (drop 2 rest)
               in if ds = [] then None
                  else Some (if neg then - hex_value ds else hex_value ds))
         else parseInt10 v)"

text \<open>\<^verbatim>\<open>x || d\<close> on a number: NaN and 0 are falsy.\<close>

definition or_number :: "int option \<Rightarrow> int \<Rightarrow> int" where
  "or_number x d = (case x of None \<Rightarrow> d | Some n \<Rightarrow> if n = 0 then d else n)"

text \<open>\<^verbatim>\<open>text || null\<close> on a string.\<close>

definition or_null :: "string \<Rightarrow> string option" where
  "or_null t = (if t = [] then None else Some t)"

text \<open>\<^verbatim>\<open>Math.round\<close>: to the nearest integer, a half goes up.\<close>

definition Math_round :: "real \<Rightarrow> int" where
  "Math_round x = \<lfloor>x + 1 / 2\<rfloor>"

text \<open>
  \<^verbatim>\<open>Math.pow(x, y)\<close> as the program calls it, with the exponent 1.25: a negative base
  gives NaN (\<open>None\<close>). Numbers of type \<^verbatim>\<open>number\<close> that are not integers are reals
  here: the rounding of the source's doubles is not modelled.
\<close>

definition Math_pow :: "real \<Rightarrow> real \<Rightarrow> real option" where
  "Math_pow x y = (if x < 0 then None else Some (x powr y))"

text \<open>\<^verbatim>\<open>Array.from(new Set(xs))\<close>: the first occurrence of every element, in order.\<close>

definition set_add :: "'a list \<Rightarrow> 'a \<Rightarrow> 'a list" where
  "set_add seen x = (if x \<in> set seen then seen else seen @ [x])"

definition new_Set :: "'a list \<Rightarrow> 'a list" where
  "new_Set xs = foldl set_add [] xs"

fun join :: "string \<Rightarrow> string list \<Rightarrow> string" where
  "join sep [] = []"
| "join sep [x] = x"
| "join sep (x # y # ys) = x @ sep @ join sep (y # ys)"

definition mergePathText :: "string \<Rightarrow> string list \<Rightarrow> string" where
  "mergePathText current incoming =
     (let merged = new_Set (parsePaths current @ filter truthy incoming)
      in join [CHR 0x0A] merged)"

section \<open>Requests, responses and commands of the bridge\<close>

datatype TabKey =
  TabRename | TabDelete | TabCompress | TabFlatten | TabExifOffset | TabMetadataStrip
| TabSettings | TabAbout

datatype ConflictPolicy = Overwrite | Sequence | Skip
datatype RenameSource = CaptureThenModified | ModifiedOnly | CurrentTime
datatype DeleteMode = Direct | Trash | Retreat
datatype SizeUnit = GB | MB | KB
datatype OffsetSign = Plus | Minus
datatype MetadataStripPreset = SnsPublish | Delivery | FullClean | Custom
datatype ImportMode = ModeOverwrite | ModeMerge
datatype ImportPolicy = PolicyExisting | PolicyImport | PolicyCancel
datatype Theme = System | Light | Dark

text \<open>The request records of \<^verbatim>\<open>types.ts\<close>; a letter after the field name tells the request.\<close>

record RenamePreviewRequest =
  inputPaths_r :: "string list"
  includeSubfolders_r :: bool
  template_r :: string
  source_r :: RenameSource
  outputDir_r :: "string option"
  conflictPolicy_r :: ConflictPolicy
  useFfprobe_r :: bool

record DeletePreviewRequest =
  inputPaths_d :: "string list"
  includeSubfolders_d :: bool
  extensions_d :: "string list"
  mode_d :: DeleteMode
  retreatDir_d :: "string option"
  conflictPolicy_d :: ConflictPolicy

record CompressPreviewRequest =
  inputPaths_c :: "string list"
  includeSubfolders_c :: bool
  resizePercent_c :: int
  quality_c :: int
  targetSizeKb_c :: "int option"
  tolerancePercent_c :: real
  preserveExif_c :: bool
  outputDir_c :: "string option"
  conflictPolicy_c :: ConflictPolicy

record FlattenPreviewRequest =
  inputDir_f :: string
  outputDir_f :: "string option"
  conflictPolicy_f :: ConflictPolicy

record ExifOffsetPreviewRequest =
  inputPaths_e :: "string list"
  includeSubfolders_e :: bool
  offsetSeconds_e :: int

record MetadataStripCategories =
  gps :: bool
  cameraLens :: bool
  software :: bool
  authorCopyright :: bool
  comments :: bool
  thumbnail :: bool
  iptc :: bool
  xmp :: bool
  shootingSettings :: bool
  captureDateTime :: bool

record MetadataStripPreviewRequest =
  inputPaths_m :: "string list"
  includeSubfolders_m :: bool
  preset_m :: MetadataStripPreset
  categories_m :: MetadataStripCategories

text \<open>
  Of a response the handlers read the counters only; the item lists, which they do not
  inspect, are left out.
\<close>

record PreviewResponse =
  total_v :: nat
  ready_v :: nat
  skipped_v :: nat

record CompressPreviewResponse = PreviewResponse +
  effectiveResizePercent :: real
  effectiveQuality :: int

record ExecuteResponse =
  processed_x :: nat
  succeeded_x :: nat
  failed_x :: nat
  skipped_x :: nat

record CompressCollectInfoResponse =
  fileCount_i :: nat
  totalSize :: nat

record CompressEstimateResponse =
  fileCount_s :: nat
  totalSourceSize :: nat
  estimatedTotalSize :: real

record ImportConflictPreview =
  deletePatternNames :: "string list"
  renameTemplateNames :: "string list"
  outputDirectoryKeys :: "string list"
  themeConflict :: bool

record DeletePattern =
  name_p :: string
  extensions_p :: "string list"
  mode_p :: DeleteMode
  retreatDir_p :: "string option"

record RenameTemplate =
  name_t :: string
  template_t :: string

record AppSettings =
  deletePatterns :: "DeletePattern list"
  renameTemplates :: "RenameTemplate list"
  outputDirectories :: "(string \<times> string) list"
  theme :: Theme

text \<open>Every command of \<^verbatim>\<open>api.ts\<close>, with the arguments it is invoked with.\<close>

datatype ipc_call =
  Preview_rename RenamePreviewRequest
| Execute_rename RenamePreviewRequest
| Preview_delete DeletePreviewRequest
| Execute_delete DeletePreviewRequest
| Preview_flatten FlattenPreviewRequest
| Execute_flatten FlattenPreviewRequest
| Compress_collect_info "string list" bool
| Compress_estimate "string list" bool int int
| Preview_compress CompressPreviewRequest
| Execute_compress CompressPreviewRequest
| Preview_exif_offset ExifOffsetPreviewRequest
| Execute_exif_offset ExifOffsetPreviewRequest
| Preview_metadata_strip MetadataStripPreviewRequest
| Execute_metadata_strip MetadataStripPreviewRequest
| Cancel_operation
| Load_settings
| Save_settings AppSettings
| Get_settings_path
| Export_settings string
| Import_settings string ImportMode ImportPolicy
| Preview_import_conflicts string
| Open_settings_folder
| Is_ffprobe_available
| List_rename_template_tags
| Is_directory_path string

text \<open>The command string that \<^verbatim>\<open>invoke\<close> is given.\<close>

fun command_name :: "ipc_call \<Rightarrow> string" where
  "command_name (Preview_rename _) = ''preview_rename''"
| "command_name (Execute_rename _) = ''execute_rename''"
| "command_name (Preview_delete _) = ''preview_delete''"
| "command_name (Execute_delete _) = ''execute_delete''"
| "command_name (Preview_flatten _) = ''preview_flatten''"
| "command_name (Execute_flatten _) = ''execute_flatten''"
| "command_name (Compress_collect_info _ _) = ''compress_collect_info''"
| "command_name (Compress_estimate _ _ _ _) = ''compress_estimate''"
| "command_name (Preview_compress _) = ''preview_compress''"
| "command_name (Execute_compress _) = ''execute_compress''"
| "command_name (Preview_exif_offset _) = ''preview_exif_offset''"
| "command_name (Execute_exif_offset _) = ''execute_exif_offset''"
| "command_name (Preview_metadata_strip _) = ''preview_metadata_strip''"
| "command_name (Execute_metadata_strip _) = ''execute_metadata_strip''"
| "command_name Cancel_operation = ''cancel_operation''"
| "command_name Load_settings = ''load_settings''"
| "command_name (Save_settings _) = ''save_settings''"
| "command_name Get_settings_path = ''get_settings_path''"
| "command_name (Export_settings _) = ''export_settings''"
| "command_name (Import_settings _ _ _) = ''import_settings''"
| "command_name (Preview_import_conflicts _) = ''preview_import_conflicts''"
| "command_name Open_settings_folder = ''open_settings_folder''"
| "command_name Is_ffprobe_available = ''is_ffprobe_available''"
| "command_name List_rename_template_tags = ''list_rename_template_tags''"
| "command_name (Is_directory_path _) = ''is_directory_path''"

text \<open>
  The engine behind the bridge is not part of the shell: what it answers is a parameter.
  A rejected promise is \<open>Inl\<close> with the error text.
\<close>

record backend =
  preview_rename :: "RenamePreviewRequest \<Rightarrow> string + PreviewResponse"
  preview_delete :: "DeletePreviewRequest \<Rightarrow> string + PreviewResponse"
  execute_delete :: "DeletePreviewRequest \<Rightarrow> string + ExecuteResponse"
  preview_compress :: "CompressPreviewRequest \<Rightarrow> string + CompressPreviewResponse"
  execute_compress :: "CompressPreviewRequest \<Rightarrow> string + ExecuteResponse"
  preview_flatten :: "FlattenPreviewRequest \<Rightarrow> string + PreviewResponse"
  preview_exif_offset :: "ExifOffsetPreviewRequest \<Rightarrow> string + PreviewResponse"
  execute_exif_offset :: "ExifOffsetPreviewRequest \<Rightarrow> string + ExecuteResponse"
  preview_metadata_strip :: "MetadataStripPreviewRequest \<Rightarrow> string + PreviewResponse"
  execute_metadata_strip :: "MetadataStripPreviewRequest \<Rightarrow> string + ExecuteResponse"
  preview_import_conflicts :: "string \<Rightarrow> string + ImportConflictPreview"
  import_settings :: "string \<Rightarrow> ImportMode \<Rightarrow> ImportPolicy \<Rightarrow> string + AppSettings"
  is_directory_path :: "string \<Rightarrow> string + bool"
  save_settings :: "AppSettings \<Rightarrow> string + unit"

section \<open>The state of the component\<close>

text \<open>
  What a handler throws, and what a toast says: the texts on screen are Japanese, so
  each is a constructor here.
\<close>

datatype error =
  InputPathsRequired
| DeleteExtensionsRequired
| OffsetRequired
| TargetSizeNotPositive
| ImportPathRequired
| ImportJsonPathRequired
| ImportConflictsFound
| FlattenNeedsFolder
| FlattenInputRequired
| Rejected string

datatype message =
  Thrown error
| PathsAdded nat
| FlattenInputSet
| NoDeleteTargets
| PreviewDone nat nat
| AutoCalculated real int
| DeleteDone nat nat
| CompressDone nat nat
| ExifOffsetDone nat nat
| MetadataStripDone nat nat

datatype ToastType = Success | Error | Info

datatype BusyLabel = Previewing | Calculating | Executing

datatype SettingsStatus = SettingsImported

record Toast =
  id_o :: nat
  type_o :: ToastType
  message_o :: message

text \<open>
  One field for each \<^verbatim>\<open>useState\<close> and \<^verbatim>\<open>useRef\<close> that the handlers below touch. The
  reference \<^verbatim>\<open>tabRef\<close> always follows \<^verbatim>\<open>tab\<close>, so the two are one field. Of
  \<^verbatim>\<open>progressMap\<close> the keys are kept.
\<close>

record app_state =
  tab :: TabKey
  settings :: AppSettings
  settingsStatus :: "SettingsStatus option"
  isBusy :: bool
  isDragOver :: bool
  busyLabel :: "BusyLabel option"
  progressMap :: "string list"
  toasts :: "Toast list"
  toastIdRef :: nat

  renamePaths :: string
  renameSubfolders :: bool
  renameTemplate :: string
  renameSource :: RenameSource
  renameOutputDir :: string
  renameConflictPolicy :: ConflictPolicy
  useFfprobe :: bool
  renamePreview :: "PreviewResponse option"
  renameExec :: "ExecuteResponse option"

  deletePaths :: string
  deleteSubfolders :: bool
  deleteExtensions :: string
  deleteMode :: DeleteMode
  deleteRetreatDir :: string
  deleteConflictPolicy :: ConflictPolicy
  deletePreview :: "PreviewResponse option"
  deleteExec :: "ExecuteResponse option"

  compressPaths :: string
  compressSubfolders :: bool
  compressResizePercent :: int
  compressQuality :: int
  compressTargetSizeKb :: string
  compressTargetSizeUnit :: SizeUnit
  compressTolerancePercent :: real
  compressPreserveExif :: bool
  compressOutputDir :: string
  compressConflictPolicy :: ConflictPolicy
  compressSourceInfo :: "CompressCollectInfoResponse option"
  compressEstimateResult :: "CompressEstimateResponse option"
  compressPreview :: "CompressPreviewResponse option"
  compressExec :: "ExecuteResponse option"

  flattenInputDir :: string
  flattenOutputDir :: string
  flattenConflictPolicy :: ConflictPolicy
  flattenPreview :: "PreviewResponse option"
  flattenExec :: "ExecuteResponse option"

  exifOffsetPaths :: string
  exifOffsetSubfolders :: bool
  exifOffsetSign :: OffsetSign
  exifOffsetDays :: int
  exifOffsetHours :: int
  exifOffsetMinutes :: int
  exifOffsetSeconds :: int
  exifOffsetPreview :: "PreviewResponse option"
  exifOffsetExec :: "ExecuteResponse option"

  metadataStripPaths :: string
  metadataStripSubfolders :: bool
  metadataStripPreset :: MetadataStripPreset
  metadataStripCategories :: MetadataStripCategories
  metadataStripPreview :: "PreviewResponse option"
  metadataStripExec :: "ExecuteResponse option"

  importPath :: string
  importMode :: ImportMode
  importConflictPolicy :: ImportPolicy
  importConflictPreview :: "ImportConflictPreview option"

section \<open>Values derived from the state\<close>

definition renameFiles :: "app_state \<Rightarrow> string list" where
  "renameFiles c = parsePaths (renamePaths c)"

definition deleteFiles :: "app_state \<Rightarrow> string list" where
  "deleteFiles c = parsePaths (deletePaths c)"

definition compressFiles :: "app_state \<Rightarrow> string list" where
  "compressFiles c = parsePaths (compressPaths c)"

definition exifOffsetFiles :: "app_state \<Rightarrow> string list" where
  "exifOffsetFiles c = parsePaths (exifOffsetPaths c)"

definition metadataStripFiles :: "app_state \<Rightarrow> string list" where
  "metadataStripFiles c = parsePaths (metadataStripPaths c)"

definition totalOffsetSeconds :: "app_state \<Rightarrow> int" where
  "totalOffsetSeconds c =
     (let magnitude = exifOffsetDays c * 86400 + exifOffsetHours c * 3600
                      + exifOffsetMinutes c * 60 + exifOffsetSeconds c
      in if exifOffsetSign c = Plus then magnitude else - magnitude)"

fun UNIT_TO_KB :: "SizeUnit \<Rightarrow> int" where
  "UNIT_TO_KB GB = 1024 * 1024"
| "UNIT_TO_KB MB = 1024"
| "UNIT_TO_KB KB = 1"

record SizeSummary =
  totalSource :: real
  totalEstimated :: "real option"
  targetBytes :: "int option"
  isSampled :: bool

text \<open>\<^verbatim>\<open>compressSizeSummary\<close>; in \<open>totalEstimated\<close>, \<open>None\<close> is NaN.\<close>

definition compressSizeSummary :: "app_state \<Rightarrow> SizeSummary option" where
  "compressSizeSummary c =
     (case compressSourceInfo c of
        None \<Rightarrow> None
      | Some info \<Rightarrow>
          (let source_total = real (totalSize info);
               estimated =
                 (case compressEstimateResult c of
                    Some sampled \<Rightarrow> Some (estimatedTotalSize sampled)
                  | None \<Rightarrow>
                      (let resizeRatio = real_of_int (compressResizePercent c) / 100;
                           qualityFactor = Math_pow (real_of_int (compressQuality c) / 100) 1.25
                       in map_option (\<lambda>f. source_total * resizeRatio * resizeRatio * f)
                            qualityFactor));
               parsed = parsePositiveInt (compressTargetSizeKb c);
               target = map_option (\<lambda>p. p * UNIT_TO_KB (compressTargetSizeUnit c) * 1024) parsed
           in Some \<lparr>totalSource = source_total, totalEstimated = estimated,
                     targetBytes = target, isSampled = (compressEstimateResult c \<noteq> None)\<rparr>))"

definition hasImportConflicts :: "ImportConflictPreview option \<Rightarrow> bool" where
  "hasImportConflicts preview =
     (case preview of
        None \<Rightarrow> False
      | Some p \<Rightarrow> length (deletePatternNames p) > 0 \<or> length (renameTemplateNames p) > 0
                 \<or> length (outputDirectoryKeys p) > 0 \<or> themeConflict p)"

definition SNS_CATEGORIES :: MetadataStripCategories where
  "SNS_CATEGORIES =
     \<lparr>gps = True, cameraLens = True, software = False, authorCopyright = False,
      comments = True, thumbnail = True, iptc = False, xmp = False,
      shootingSettings = False, captureDateTime = False\<rparr>"

section \<open>Requests as the handlers build them\<close>

text \<open>
  A handler reads the values of the render it was created in (\<open>c\<close> below) and writes
  through the setters into the current state (\<open>s\<close>). The preview handler of a form,
  its execute handler and \<^verbatim>\<open>previewCurrentTab\<close> write out the same object literal;
  it is one function here.
\<close>

definition renameRequest :: "app_state \<Rightarrow> RenamePreviewRequest" where
  "renameRequest c =
     \<lparr>inputPaths_r = renameFiles c, includeSubfolders_r = renameSubfolders c,
      template_r = renameTemplate c, source_r = renameSource c,
      outputDir_r = or_null (trim (renameOutputDir c)),
      conflictPolicy_r = renameConflictPolicy c, useFfprobe_r = useFfprobe c\<rparr>"

definition deleteRequest :: "app_state \<Rightarrow> DeletePreviewRequest" where
  "deleteRequest c =
     \<lparr>inputPaths_d = deleteFiles c, includeSubfolders_d = deleteSubfolders c,
      extensions_d = parseExts (deleteExtensions c), mode_d = deleteMode c,
      retreatDir_d = (if deleteMode c = Retreat then Some (trim (deleteRetreatDir c)) else None),
      conflictPolicy_d = deleteConflictPolicy c\<rparr>"

definition compressRequest :: "app_state \<Rightarrow> int option \<Rightarrow> CompressPreviewRequest" where
  "compressRequest c target =
     \<lparr>inputPaths_c = compressFiles c, includeSubfolders_c = compressSubfolders c,
      resizePercent_c = compressResizePercent c, quality_c = compressQuality c,
      targetSizeKb_c = target, tolerancePercent_c = compressTolerancePercent c,
      preserveExif_c = compressPreserveExif c,
      outputDir_c = or_null (trim (compressOutputDir c)),
      conflictPolicy_c = compressConflictPolicy c\<rparr>"

definition flattenRequest :: "app_state \<Rightarrow> FlattenPreviewRequest" where
  "flattenRequest c =
     \<lparr>inputDir_f = trim (flattenInputDir c),
      outputDir_f = or_null (trim (flattenOutputDir c)),
      conflictPolicy_f = flattenConflictPolicy c\<rparr>"

definition exifOffsetRequest :: "app_state \<Rightarrow> ExifOffsetPreviewRequest" where
  "exifOffsetRequest c =
     \<lparr>inputPaths_e = exifOffsetFiles c, includeSubfolders_e = exifOffsetSubfolders c,
      offsetSeconds_e = totalOffsetSeconds c\<rparr>"

definition metadataStripRequest :: "app_state \<Rightarrow> MetadataStripPreviewRequest" where
  "metadataStripRequest c =
     \<lparr>inputPaths_m = metadataStripFiles c, includeSubfolders_m = metadataStripSubfolders c,
      preset_m = metadataStripPreset c, categories_m = metadataStripCategories c\<rparr>"

section \<open>Handlers\<close>

text \<open>
  A handler gives the commands it invoked, in order, the state after it, and what it
  threw. A handler runs to its end before the next event is taken: an event that
  arrives while a command is awaited is taken after the answer.
\<close>

type_synonym outcome = "ipc_call list \<times> app_state \<times> error option"

definition addToast :: "ToastType \<Rightarrow> message \<Rightarrow> app_state \<Rightarrow> app_state" where
  "addToast ty msg s =
     (let new_id = toastIdRef s + 1
      in s\<lparr>toastIdRef := new_id,
           toasts := toasts s @ [\<lparr>id_o = new_id, type_o = ty, message_o = msg\<rparr>]\<rparr>)"

text \<open>\<^verbatim>\<open>run\<close>: the busy flag around the action, and a toast for what it throws.\<close>

definition run :: "(app_state \<Rightarrow> outcome) \<Rightarrow> BusyLabel option \<Rightarrow> app_state \<Rightarrow> ipc_call list \<times> app_state" where
  "run action label s =
     (case action (s\<lparr>isBusy := True, busyLabel := label\<rparr>) of
        (calls, s1, thrown) \<Rightarrow>
          (calls,
           (case thrown of None \<Rightarrow> s1 | Some e \<Rightarrow> addToast Error (Thrown e) s1)
             \<lparr>isBusy := False, busyLabel := None\<rparr>))"

text \<open>
  \<^verbatim>\<open>await invoke(...)\<close> followed by setters: one command; a rejection is thrown, an
  answer goes to the rest of the handler.
\<close>

definition await :: "ipc_call \<Rightarrow> string + 'r \<Rightarrow> app_state \<Rightarrow> ('r \<Rightarrow> app_state \<Rightarrow> app_state) \<Rightarrow> outcome" where
  "await call answer s rest =
     (case answer of
        Inl text \<Rightarrow> ([call], s, Some (Rejected text))
      | Inr r \<Rightarrow> ([call], rest r s, None))"

subsection \<open>Preview of the current tab\<close>

fun previewCurrentTab :: "backend \<Rightarrow> app_state \<Rightarrow> TabKey \<Rightarrow> app_state \<Rightarrow> outcome" where
  "previewCurrentTab b c TabRename s =
     (if renameFiles c = [] then ([], s, None)
      else await (Preview_rename (renameRequest c)) (preview_rename b (renameRequest c))
             (s\<lparr>renameExec := None\<rparr>)
             (\<lambda>r s. s\<lparr>renamePreview := Some r\<rparr>))"
| "previewCurrentTab b c TabDelete s =
     (if deleteFiles c = [] then ([], s, None)
      else if parseExts (deleteExtensions c) = [] then ([], s, None)
      else await (Preview_delete (deleteRequest c)) (preview_delete b (deleteRequest c))
             (s\<lparr>deleteExec := None\<rparr>)
             (\<lambda>r s. if total_v r = 0
                    then addToast Info NoDeleteTargets (s\<lparr>deletePreview := None\<rparr>)
                    else s\<lparr>deletePreview := Some r\<rparr>))"
| "previewCurrentTab b c TabCompress s =
     (if compressFiles c = [] then ([], s, None)
      else await (Preview_compress (compressRequest c None))
             (preview_compress b (compressRequest c None))
             (s\<lparr>compressExec := None\<rparr>)
             (\<lambda>r s. s\<lparr>compressPreview := Some r\<rparr>))"
| "previewCurrentTab b c TabFlatten s =
     (if trim (flattenInputDir c) = [] then ([], s, None)
      else await (Preview_flatten (flattenRequest c)) (preview_flatten b (flattenRequest c))
             (s\<lparr>flattenExec := None\<rparr>)
             (\<lambda>r s. s\<lparr>flattenPreview := Some r\<rparr>))"
| "previewCurrentTab b c TabExifOffset s =
     (if exifOffsetFiles c = [] then ([], s, None)
      else await (Preview_exif_offset (exifOffsetRequest c))
             (preview_exif_offset b (exifOffsetRequest c))
             (s\<lparr>exifOffsetExec := None\<rparr>)
             (\<lambda>r s. s\<lparr>exifOffsetPreview := Some r\<rparr>))"
| "previewCurrentTab b c TabMetadataStrip s =
     (if metadataStripFiles c = [] then ([], s, None)
      else await (Preview_metadata_strip (metadataStripRequest c))
             (preview_metadata_strip b (metadataStripRequest c))
             (s\<lparr>metadataStripExec := None\<rparr>)
             (\<lambda>r s. s\<lparr>metadataStripPreview := Some r\<rparr>))"
| "previewCurrentTab b c TabSettings s = ([], s, None)"
| "previewCurrentTab b c TabAbout s = ([], s, None)"

subsection \<open>Paths that are dropped or picked\<close>

text \<open>The loop of the flatten case: the first path that is a directory becomes the input.\<close>

fun firstDirectory :: "backend \<Rightarrow> string list \<Rightarrow> app_state \<Rightarrow> outcome" where
  "firstDirectory b [] s = ([], s, Some FlattenNeedsFolder)"
| "firstDirectory b (p # ps) s =
     (case is_directory_path b p of
        Inl text \<Rightarrow> ([Is_directory_path p], s, Some (Rejected text))
      | Inr is_dir \<Rightarrow>
          if is_dir
          then ([Is_directory_path p], addToast Info FlattenInputSet (s\<lparr>flattenInputDir := p\<rparr>), None)
          else (case firstDirectory b ps s of
                  (calls, s1, thrown) \<Rightarrow> (Is_directory_path p # calls, s1, thrown)))"

definition applyPathsToCurrentTab :: "backend \<Rightarrow> string list \<Rightarrow> app_state \<Rightarrow> outcome" where
  "applyPathsToCurrentTab b incoming s =
     (let paths = filter truthy incoming
      in if paths = [] then ([], s, None)
         else (case tab s of
             TabRename \<Rightarrow>
               ([], addToast Info (PathsAdded (length paths))
                      (s\<lparr>renamePaths := mergePathText (renamePaths s) paths\<rparr>), None)
           | TabDelete \<Rightarrow>
               ([], addToast Info (PathsAdded (length paths))
                      (s\<lparr>deletePaths := mergePathText (deletePaths s) paths\<rparr>), None)
           | TabCompress \<Rightarrow>
               ([], addToast Info (PathsAdded (length paths))
                      (s\<lparr>compressPaths := mergePathText (compressPaths s) paths\<rparr>), None)
           | TabFlatten \<Rightarrow> firstDirectory b paths s
           | TabExifOffset \<Rightarrow>
               ([], addToast Info (PathsAdded (length paths))
                      (s\<lparr>exifOffsetPaths := mergePathText (exifOffsetPaths s) paths\<rparr>), None)
           | TabMetadataStrip \<Rightarrow>
               ([], addToast Info (PathsAdded (length paths))
                      (s\<lparr>metadataStripPaths := mergePathText (metadataStripPaths s) paths\<rparr>), None)
           | TabSettings \<Rightarrow> ([], s, None)
           | TabAbout \<Rightarrow> ([], s, None)))"

text \<open>
  The listener for a drop is registered by an effect whose dependency list is empty
  (lines 932 to 957), so it keeps the functions of the render in which the effect ran,
  the first one. The tab comes from \<^verbatim>\<open>tabRef\<close> and the path texts are set through
  updater functions, both current; \<^verbatim>\<open>previewCurrentTab\<close> reads the values of that
  first render, \<open>c0\<close>.
\<close>

definition dropAction :: "backend \<Rightarrow> app_state \<Rightarrow> string list \<Rightarrow> app_state \<Rightarrow> outcome" where
  "dropAction b c0 paths s =
     (let currentTab = tab s
      in case applyPathsToCurrentTab b paths s of
           (calls1, s1, Some e) \<Rightarrow> (calls1, s1, Some e)
         | (calls1, s1, None) \<Rightarrow>
             (case previewCurrentTab b c0 currentTab s1 of
                (calls2, s2, thrown) \<Rightarrow> (calls1 @ calls2, s2, thrown)))"

definition onDragDrop :: "backend \<Rightarrow> app_state \<Rightarrow> string list \<Rightarrow> app_state \<Rightarrow> ipc_call list \<times> app_state" where
  "onDragDrop b c0 paths s = run (dropAction b c0 paths) None (s\<lparr>isDragOver := False\<rparr>)"

subsection \<open>Rename and flatten: the preview forms\<close>

definition renameSubmitAction :: "backend \<Rightarrow> app_state \<Rightarrow> app_state \<Rightarrow> outcome" where
  "renameSubmitAction b c s =
     (if renameFiles c = [] then ([], s, Some InputPathsRequired)
      else await (Preview_rename (renameRequest c)) (preview_rename b (renameRequest c))
             (s\<lparr>renameExec := None\<rparr>)
             (\<lambda>r s. addToast Success (PreviewDone (ready_v r) (total_v r))
                      (s\<lparr>renamePreview := Some r\<rparr>)))"

definition onRenameSubmit :: "backend \<Rightarrow> app_state \<Rightarrow> ipc_call list \<times> app_state" where
  "onRenameSubmit b s = run (renameSubmitAction b s) None s"

definition flattenSubmitAction :: "backend \<Rightarrow> app_state \<Rightarrow> app_state \<Rightarrow> outcome" where
  "flattenSubmitAction b c s =
     (if trim (flattenInputDir c) = [] then ([], s, Some FlattenInputRequired)
      else await (Preview_flatten (flattenRequest c)) (preview_flatten b (flattenRequest c))
             (s\<lparr>flattenExec := None\<rparr>)
             (\<lambda>r s. addToast Success (PreviewDone (ready_v r) (total_v r))
                      (s\<lparr>flattenPreview := Some r\<rparr>)))"

definition onFlattenSubmit :: "backend \<Rightarrow> app_state \<Rightarrow> ipc_call list \<times> app_state" where
  "onFlattenSubmit b s = run (flattenSubmitAction b s) None s"

subsection \<open>Delete\<close>

definition deleteSubmitAction :: "backend \<Rightarrow> app_state \<Rightarrow> app_state \<Rightarrow> outcome" where
  "deleteSubmitAction b c s =
     (if deleteFiles c = [] then ([], s, Some InputPathsRequired)
      else if parseExts (deleteExtensions c) = [] then ([], s, Some DeleteExtensionsRequired)
      else await (Preview_delete (deleteRequest c)) (preview_delete b (deleteRequest c))
             (s\<lparr>deleteExec := None\<rparr>)
             (\<lambda>r s. if total_v r = 0
                    then addToast Info NoDeleteTargets (s\<lparr>deletePreview := None\<rparr>)
                    else addToast Success (PreviewDone (ready_v r) (total_v r))
                           (s\<lparr>deletePreview := Some r\<rparr>)))"

definition onDeleteSubmit :: "backend \<Rightarrow> app_state \<Rightarrow> ipc_call list \<times> app_state" where
  "onDeleteSubmit b s = run (deleteSubmitAction b s) None s"

definition deleteExecuteAction :: "backend \<Rightarrow> app_state \<Rightarrow> app_state \<Rightarrow> outcome" where
  "deleteExecuteAction b c s =
     (if deleteFiles c = [] then ([], s, Some InputPathsRequired)
      else if parseExts (deleteExtensions c) = [] then ([], s, Some DeleteExtensionsRequired)
      else await (Execute_delete (deleteRequest c)) (execute_delete b (deleteRequest c))
             (s\<lparr>progressMap := removeAll ''delete'' (progressMap s)\<rparr>)
             (\<lambda>r s. addToast Success (DeleteDone (succeeded_x r) (failed_x r))
                      (s\<lparr>deleteExec := Some r\<rparr>)))"

definition onDeleteExecute :: "backend \<Rightarrow> app_state \<Rightarrow> ipc_call list \<times> app_state" where
  "onDeleteExecute b s = run (deleteExecuteAction b s) None s"

subsection \<open>Compress\<close>

definition onResizePercentChange :: "string \<Rightarrow> app_state \<Rightarrow> app_state" where
  "onResizePercentChange v s =
     s\<lparr>compressResizePercent := max 1 (min 100 (or_number (parseInt10 v) 1))\<rparr>"

definition onQualityChange :: "string \<Rightarrow> app_state \<Rightarrow> app_state" where
  "onQualityChange v s =
     s\<lparr>compressQuality := max 1 (min 100 (or_number (parseInt10 v) 1))\<rparr>"

definition compressSubmitAction :: "backend \<Rightarrow> app_state \<Rightarrow> app_state \<Rightarrow> outcome" where
  "compressSubmitAction b c s =
     (if compressFiles c = [] then ([], s, Some InputPathsRequired)
      else await (Preview_compress (compressRequest c None))
             (preview_compress b (compressRequest c None))
             (s\<lparr>compressExec := None\<rparr>)
             (\<lambda>r s. addToast Success (PreviewDone (ready_v r) (total_v r))
                      (s\<lparr>compressPreview := Some r\<rparr>)))"

definition onCompressSubmit :: "backend \<Rightarrow> app_state \<Rightarrow> ipc_call list \<times> app_state" where
  "onCompressSubmit b s = run (compressSubmitAction b s) (Some Previewing) s"

text \<open>The button that computes resize and quality for a target size.\<close>

definition compressCalculateAction :: "backend \<Rightarrow> app_state \<Rightarrow> app_state \<Rightarrow> outcome" where
  "compressCalculateAction b c s =
     (case parsePositiveInt (compressTargetSizeKb c) of
        None \<Rightarrow> ([], s, Some TargetSizeNotPositive)
      | Some parsed \<Rightarrow>
          (let targetSizeKb = parsed * UNIT_TO_KB (compressTargetSizeUnit c)
           in await (Preview_compress (compressRequest c (Some targetSizeKb)))
                (preview_compress b (compressRequest c (Some targetSizeKb)))
                (s\<lparr>compressExec := None\<rparr>)
                (\<lambda>r s. addToast Success
                         (AutoCalculated (effectiveResizePercent r) (effectiveQuality r))
                         (s\<lparr>compressPreview := Some r,
                            compressResizePercent := Math_round (effectiveResizePercent r),
                            compressQuality := effectiveQuality r\<rparr>))))"

definition onCompressCalculate :: "backend \<Rightarrow> app_state \<Rightarrow> ipc_call list \<times> app_state" where
  "onCompressCalculate b s = run (compressCalculateAction b s) (Some Calculating) s"

definition compressExecuteAction :: "backend \<Rightarrow> app_state \<Rightarrow> app_state \<Rightarrow> outcome" where
  "compressExecuteAction b c s =
     (if compressFiles c = [] then ([], s, Some InputPathsRequired)
      else await (Execute_compress (compressRequest c None))
             (execute_compress b (compressRequest c None))
             (s\<lparr>progressMap := removeAll ''compress'' (progressMap s)\<rparr>)
             (\<lambda>r s. addToast Success (CompressDone (succeeded_x r) (failed_x r))
                      (s\<lparr>compressExec := Some r\<rparr>)))"

definition onCompressExecute :: "backend \<Rightarrow> app_state \<Rightarrow> ipc_call list \<times> app_state" where
  "onCompressExecute b s = run (compressExecuteAction b s) (Some Executing) s"

subsection \<open>EXIF offset\<close>

text \<open>The four number fields of the offset: \<^verbatim>\<open>Math.max(0, Math.min(23, Number.parseInt(v) || 0))\<close>.\<close>

definition onExifOffsetDaysChange :: "string \<Rightarrow> app_state \<Rightarrow> app_state" where
  "onExifOffsetDaysChange v s = s\<lparr>exifOffsetDays := max 0 (or_number (parseInt v) 0)\<rparr>"

definition onExifOffsetHoursChange :: "string \<Rightarrow> app_state \<Rightarrow> app_state" where
  "onExifOffsetHoursChange v s =
     s\<lparr>exifOffsetHours := max 0 (min 23 (or_number (parseInt v) 0))\<rparr>"

definition onExifOffsetMinutesChange :: "string \<Rightarrow> app_state \<Rightarrow> app_state" where
  "onExifOffsetMinutesChange v s =
     s\<lparr>exifOffsetMinutes := max 0 (min 59 (or_number (parseInt v) 0))\<rparr>"

definition onExifOffsetSecondsChange :: "string \<Rightarrow> app_state \<Rightarrow> app_state" where
  "onExifOffsetSecondsChange v s =
     s\<lparr>exifOffsetSeconds := max 0 (min 59 (or_number (parseInt v) 0))\<rparr>"

definition exifOffsetSubmitAction :: "backend \<Rightarrow> app_state \<Rightarrow> app_state \<Rightarrow> outcome" where
  "exifOffsetSubmitAction b c s =
     (if exifOffsetFiles c = [] then ([], s, Some InputPathsRequired)
      else if totalOffsetSeconds c = 0 then ([], s, Some OffsetRequired)
      else await (Preview_exif_offset (exifOffsetRequest c))
             (preview_exif_offset b (exifOffsetRequest c))
             (s\<lparr>exifOffsetExec := None\<rparr>)
             (\<lambda>r s. addToast Success (PreviewDone (ready_v r) (total_v r))
                      (s\<lparr>exifOffsetPreview := Some r\<rparr>)))"

definition onExifOffsetSubmit :: "backend \<Rightarrow> app_state \<Rightarrow> ipc_call list \<times> app_state" where
  "onExifOffsetSubmit b s = run (exifOffsetSubmitAction b s) None s"

definition exifOffsetExecuteAction :: "backend \<Rightarrow> app_state \<Rightarrow> app_state \<Rightarrow> outcome" where
  "exifOffsetExecuteAction b c s =
     (if exifOffsetFiles c = [] then ([], s, Some InputPathsRequired)
      else if totalOffsetSeconds c = 0 then ([], s, Some OffsetRequired)
      else await (Execute_exif_offset (exifOffsetRequest c))
             (execute_exif_offset b (exifOffsetRequest c))
             (s\<lparr>progressMap := removeAll ''exifOffset'' (progressMap s)\<rparr>)
             (\<lambda>r s. addToast Success (ExifOffsetDone (succeeded_x r) (failed_x r))
                      (s\<lparr>exifOffsetExec := Some r\<rparr>)))"

definition onExifOffsetExecute :: "backend \<Rightarrow> app_state \<Rightarrow> ipc_call list \<times> app_state" where
  "onExifOffsetExecute b s = run (exifOffsetExecuteAction b s) (Some Executing) s"

subsection \<open>Metadata strip\<close>

definition onMetadataStripPresetChange :: "MetadataStripPreset \<Rightarrow> app_state \<Rightarrow> app_state" where
  "onMetadataStripPresetChange preset s =
     (let s1 = s\<lparr>metadataStripPreset := preset\<rparr>
      in if preset = SnsPublish then
           s1\<lparr>metadataStripCategories :=
                \<lparr>gps = True, cameraLens = True, software = False, authorCopyright = False,
                 comments = True, thumbnail = True, iptc = False, xmp = False,
                 shootingSettings = False, captureDateTime = False\<rparr>\<rparr>
         else if preset = Delivery then
           s1\<lparr>metadataStripCategories :=
                \<lparr>gps = False, cameraLens = True, software = True, authorCopyright = False,
                 comments = True, thumbnail = False, iptc = False, xmp = False,
                 shootingSettings = False, captureDateTime = False\<rparr>\<rparr>
         else if preset = FullClean then
           s1\<lparr>metadataStripCategories :=
                \<lparr>gps = True, cameraLens = True, software = True, authorCopyright = True,
                 comments = True, thumbnail = True, iptc = True, xmp = True,
                 shootingSettings = True, captureDateTime = True\<rparr>\<rparr>
         else s1)"

text \<open>A check box of the category list: the category is set and the preset becomes custom.\<close>

datatype CategoryKey =
  KeyGps | KeyCameraLens | KeySoftware | KeyAuthorCopyright | KeyComments | KeyThumbnail
| KeyIptc | KeyXmp | KeyShootingSettings | KeyCaptureDateTime

fun with_category :: "CategoryKey \<Rightarrow> bool \<Rightarrow> MetadataStripCategories \<Rightarrow> MetadataStripCategories" where
  "with_category KeyGps v m = m\<lparr>gps := v\<rparr>"
| "with_category KeyCameraLens v m = m\<lparr>cameraLens := v\<rparr>"
| "with_category KeySoftware v m = m\<lparr>software := v\<rparr>"
| "with_category KeyAuthorCopyright v m = m\<lparr>authorCopyright := v\<rparr>"
| "with_category KeyComments v m = m\<lparr>comments := v\<rparr>"
| "with_category KeyThumbnail v m = m\<lparr>thumbnail := v\<rparr>"
| "with_category KeyIptc v m = m\<lparr>iptc := v\<rparr>"
| "with_category KeyXmp v m = m\<lparr>xmp := v\<rparr>"
| "with_category KeyShootingSettings v m = m\<lparr>shootingSettings := v\<rparr>"
| "with_category KeyCaptureDateTime v m = m\<lparr>captureDateTime := v\<rparr>"

definition onCategoryChange :: "CategoryKey \<Rightarrow> bool \<Rightarrow> app_state \<Rightarrow> app_state" where
  "onCategoryChange key checked s =
     s\<lparr>metadataStripCategories := with_category key checked (metadataStripCategories s),
       metadataStripPreset := Custom\<rparr>"

definition metadataStripSubmitAction :: "backend \<Rightarrow> app_state \<Rightarrow> app_state \<Rightarrow> outcome" where
  "metadataStripSubmitAction b c s =
     (if metadataStripFiles c = [] then ([], s, Some InputPathsRequired)
      else await (Preview_metadata_strip (metadataStripRequest c))
             (preview_metadata_strip b (metadataStripRequest c))
             (s\<lparr>metadataStripExec := None\<rparr>)
             (\<lambda>r s. addToast Success (PreviewDone (ready_v r) (total_v r))
                      (s\<lparr>metadataStripPreview := Some r\<rparr>)))"

definition onMetadataStripSubmit :: "backend \<Rightarrow> app_state \<Rightarrow> ipc_call list \<times> app_state" where
  "onMetadataStripSubmit b s = run (metadataStripSubmitAction b s) None s"

definition metadataStripExecuteAction :: "backend \<Rightarrow> app_state \<Rightarrow> app_state \<Rightarrow> outcome" where
  "metadataStripExecuteAction b c s =
     (if metadataStripFiles c = [] then ([], s, Some InputPathsRequired)
      else await (Execute_metadata_strip (metadataStripRequest c))
             (execute_metadata_strip b (metadataStripRequest c))
             (s\<lparr>progressMap := removeAll ''metadataStrip'' (progressMap s)\<rparr>)
             (\<lambda>r s. addToast Success (MetadataStripDone (succeeded_x r) (failed_x r))
                      (s\<lparr>metadataStripExec := Some r\<rparr>)))"

definition onMetadataStripExecute :: "backend \<Rightarrow> app_state \<Rightarrow> ipc_call list \<times> app_state" where
  "onMetadataStripExecute b s = run (metadataStripExecuteAction b s) (Some Executing) s"

subsection \<open>Import of settings\<close>

text \<open>\<^verbatim>\<open>next.outputDirectories.rename ?? ""\<close>.\<close>

definition directory_or_empty :: "AppSettings \<Rightarrow> string \<Rightarrow> string" where
  "directory_or_empty next k = (case map_of (outputDirectories next) k of None \<Rightarrow> [] | Some d \<Rightarrow> d)"

definition applySettingsToInputs :: "AppSettings \<Rightarrow> app_state \<Rightarrow> app_state" where
  "applySettingsToInputs next s =
     s\<lparr>settings := next,
       renameOutputDir := directory_or_empty next ''rename'',
       deleteRetreatDir := directory_or_empty next ''delete_retreat'',
       compressOutputDir := directory_or_empty next ''compress'',
       flattenOutputDir := directory_or_empty next ''flatten''\<rparr>"

text \<open>\<^verbatim>\<open>refreshImportConflicts\<close> also returns the preview it stored.\<close>

definition refreshImportConflicts ::
  "backend \<Rightarrow> app_state \<Rightarrow> app_state \<Rightarrow> ipc_call list \<times> app_state \<times> (error + ImportConflictPreview option)" where
  "refreshImportConflicts b c s =
     (if trim (importPath c) = [] then ([], s, Inl ImportJsonPathRequired)
      else if importMode c \<noteq> ModeMerge then ([], s\<lparr>importConflictPreview := None\<rparr>, Inr None)
      else (case preview_import_conflicts b (trim (importPath c)) of
              Inl text \<Rightarrow> ([Preview_import_conflicts (trim (importPath c))], s, Inl (Rejected text))
            | Inr preview \<Rightarrow>
                ([Preview_import_conflicts (trim (importPath c))],
                 s\<lparr>importConflictPreview := Some preview\<rparr>, Inr (Some preview))))"

definition onConflictCheck :: "backend \<Rightarrow> app_state \<Rightarrow> ipc_call list \<times> app_state" where
  "onConflictCheck b s =
     run (\<lambda>s'. case refreshImportConflicts b s s' of
                 (calls, s1, Inl e) \<Rightarrow> (calls, s1, Some e)
               | (calls, s1, Inr _) \<Rightarrow> (calls, s1, None)) None s"

text \<open>The last step of the import button: the import itself.\<close>

definition importNow :: "backend \<Rightarrow> app_state \<Rightarrow> ipc_call list \<Rightarrow> app_state \<Rightarrow> outcome" where
  "importNow b c calls s =
     (let call = Import_settings (trim (importPath c)) (importMode c) (importConflictPolicy c)
      in case import_settings b (trim (importPath c)) (importMode c) (importConflictPolicy c) of
           Inl text \<Rightarrow> (calls @ [call], s, Some (Rejected text))
         | Inr next \<Rightarrow>
             (calls @ [call],
              (applySettingsToInputs next s)\<lparr>settingsStatus := Some SettingsImported\<rparr>, None))"

definition importAction :: "backend \<Rightarrow> app_state \<Rightarrow> app_state \<Rightarrow> outcome" where
  "importAction b c s =
     (if trim (importPath c) = [] then ([], s, Some ImportPathRequired)
      else if importMode c = ModeMerge \<and> importConflictPreview c = None then
        (case refreshImportConflicts b c s of
           (calls, s1, Inl e) \<Rightarrow> (calls, s1, Some e)
         | (calls, s1, Inr checked) \<Rightarrow>
             if hasImportConflicts checked then (calls, s1, Some ImportConflictsFound)
             else importNow b c calls s1)
      else importNow b c [] s)"

definition onImportClick :: "backend \<Rightarrow> app_state \<Rightarrow> ipc_call list \<times> app_state" where
  "onImportClick b s = run (importAction b s) None s"

definition onImportPathChange :: "string \<Rightarrow> app_state \<Rightarrow> app_state" where
  "onImportPathChange v s = s\<lparr>importPath := v, importConflictPreview := None\<rparr>"

definition onImportModeChange :: "ImportMode \<Rightarrow> app_state \<Rightarrow> app_state" where
  "onImportModeChange m s = s\<lparr>importMode := m, importConflictPreview := None\<rparr>"

section \<open>Events\<close>

text \<open>
  The first render has the initial values of the \<^verbatim>\<open>useState\<close> calls. The display name
  of the default rename template is written in CJK characters, outside the code units
  modelled: it is a parameter.
\<close>

definition DEFAULT_SETTINGS :: "string \<Rightarrow> AppSettings" where
  "DEFAULT_SETTINGS default_name =
     \<lparr>deletePatterns = [],
      renameTemplates =
        [\<lparr>name_t = default_name,
          template_t = ''{capture_date:YYYYMMDD}_{capture_time:HHmmss}_{seq:3}''\<rparr>],
      outputDirectories = [],
      theme = System\<rparr>"

definition initial_state :: "string \<Rightarrow> app_state" where
  "initial_state default_name =
     \<lparr>tab = TabRename, settings = DEFAULT_SETTINGS default_name, settingsStatus = None,
      isBusy = False, isDragOver = False, busyLabel = None, progressMap = [], toasts = [],
      toastIdRef = 0,
      renamePaths = [], renameSubfolders = False,
      renameTemplate = ''{capture_date:YYYYMMDD}_{capture_time:HHmmss}_{seq:3}'',
      renameSource = CaptureThenModified, renameOutputDir = [],
      renameConflictPolicy = Sequence, useFfprobe = False, renamePreview = None,
      renameExec = None,
      deletePaths = [], deleteSubfolders = False, deleteExtensions = ''jpg'',
      deleteMode = Trash, deleteRetreatDir = [], deleteConflictPolicy = Sequence,
      deletePreview = None, deleteExec = None,
      compressPaths = [], compressSubfolders = False, compressResizePercent = 100,
      compressQuality = 82, compressTargetSizeKb = [], compressTargetSizeUnit = MB,
      compressTolerancePercent = 10, compressPreserveExif = True, compressOutputDir = [],
      compressConflictPolicy = Sequence, compressSourceInfo = None,
      compressEstimateResult = None, compressPreview = None, compressExec = None,
      flattenInputDir = [], flattenOutputDir = [], flattenConflictPolicy = Sequence,
      flattenPreview = None, flattenExec = None,
      exifOffsetPaths = [], exifOffsetSubfolders = False, exifOffsetSign = Plus,
      exifOffsetDays = 0, exifOffsetHours = 0, exifOffsetMinutes = 0, exifOffsetSeconds = 0,
      exifOffsetPreview = None, exifOffsetExec = None,
      metadataStripPaths = [], metadataStripSubfolders = False,
      metadataStripPreset = SnsPublish, metadataStripCategories = SNS_CATEGORIES,
      metadataStripPreview = None, metadataStripExec = None,
      importPath = [], importMode = ModeMerge, importConflictPolicy = PolicyExisting,
      importConflictPreview = None\<rparr>"

text \<open>
  The user's events on the forms modelled here. An edit of a text field stores the text
  as it is. A click is taken in every state, also in one where the program shows the
  button disabled: the sessions of the model include those of the program. The events
  that are not listed (the execute buttons of rename and flatten, the pattern and
  template editors, the settings buttons, the remaining fields) write neither
  \<^verbatim>\<open>compressResizePercent\<close> nor \<^verbatim>\<open>compressQuality\<close> and invoke no delete, compress or
  EXIF offset request.
\<close>

datatype event =
  SelectTab TabKey
| DragDrop "string list"
| EditRenamePaths string
| RenameSubmit
| EditDeletePaths string
| EditDeleteExtensions string
| DeleteSubmit
| DeleteExecute
| EditCompressPaths string
| ResizePercentChange string
| QualityChange string
| EditCompressTargetSize string
| SelectCompressTargetUnit SizeUnit
| CompressSubmit
| CompressCalculate
| CompressExecute
| EditFlattenInputDir string
| FlattenSubmit
| EditExifOffsetPaths string
| SelectExifOffsetSign OffsetSign
| ExifOffsetDaysChange string
| ExifOffsetHoursChange string
| ExifOffsetMinutesChange string
| ExifOffsetSecondsChange string
| ExifOffsetSubmit
| ExifOffsetExecute
| EditMetadataStripPaths string
| MetadataStripPresetChange MetadataStripPreset
| CategoryChange CategoryKey bool
| MetadataStripSubmit
| MetadataStripExecute
| EditImportPath string
| SelectImportMode ImportMode
| SelectImportPolicy ImportPolicy
| ConflictCheck
| ImportClick

fun handle :: "backend \<Rightarrow> app_state \<Rightarrow> event \<Rightarrow> app_state \<Rightarrow> ipc_call list \<times> app_state" where
  "handle b c0 (SelectTab k) s = ([], s\<lparr>tab := k\<rparr>)"
| "handle b c0 (DragDrop paths) s = onDragDrop b c0 paths s"
| "handle b c0 (EditRenamePaths v) s = ([], s\<lparr>renamePaths := v\<rparr>)"
| "handle b c0 RenameSubmit s = onRenameSubmit b s"
| "handle b c0 (EditDeletePaths v) s = ([], s\<lparr>deletePaths := v\<rparr>)"
| "handle b c0 (EditDeleteExtensions v) s = ([], s\<lparr>deleteExtensions := v\<rparr>)"
| "handle b c0 DeleteSubmit s = onDeleteSubmit b s"
| "handle b c0 DeleteExecute s = onDeleteExecute b s"
| "handle b c0 (EditCompressPaths v) s = ([], s\<lparr>compressPaths := v\<rparr>)"
| "handle b c0 (ResizePercentChange v) s = ([], onResizePercentChange v s)"
| "handle b c0 (QualityChange v) s = ([], onQualityChange v s)"
| "handle b c0 (EditCompressTargetSize v) s = ([], s\<lparr>compressTargetSizeKb := v\<rparr>)"
| "handle b c0 (SelectCompressTargetUnit u) s = ([], s\<lparr>compressTargetSizeUnit := u\<rparr>)"
| "handle b c0 CompressSubmit s = onCompressSubmit b s"
| "handle b c0 CompressCalculate s = onCompressCalculate b s"
| "handle b c0 CompressExecute s = onCompressExecute b s"
| "handle b c0 (EditFlattenInputDir v) s = ([], s\<lparr>flattenInputDir := v\<rparr>)"
| "handle b c0 FlattenSubmit s = onFlattenSubmit b s"
| "handle b c0 (EditExifOffsetPaths v) s = ([], s\<lparr>exifOffsetPaths := v\<rparr>)"
| "handle b c0 (SelectExifOffsetSign g) s = ([], s\<lparr>exifOffsetSign := g\<rparr>)"
| "handle b c0 (ExifOffsetDaysChange v) s = ([], onExifOffsetDaysChange v s)"
| "handle b c0 (ExifOffsetHoursChange v) s = ([], onExifOffsetHoursChange v s)"
| "handle b c0 (ExifOffsetMinutesChange v) s = ([], onExifOffsetMinutesChange v s)"
| "handle b c0 (ExifOffsetSecondsChange v) s = ([], onExifOffsetSecondsChange v s)"
| "handle b c0 ExifOffsetSubmit s = onExifOffsetSubmit b s"
| "handle b c0 ExifOffsetExecute s = onExifOffsetExecute b s"
| "handle b c0 (EditMetadataStripPaths v) s = ([], s\<lparr>metadataStripPaths := v\<rparr>)"
| "handle b c0 (MetadataStripPresetChange p) s = ([], onMetadataStripPresetChange p s)"
| "handle b c0 (CategoryChange key checked) s = ([], onCategoryChange key checked s)"
| "handle b c0 MetadataStripSubmit s = onMetadataStripSubmit b s"
| "handle b c0 MetadataStripExecute s = onMetadataStripExecute b s"
| "handle b c0 (EditImportPath v) s = ([], onImportPathChange v s)"
| "handle b c0 (SelectImportMode m) s = ([], onImportModeChange m s)"
| "handle b c0 (SelectImportPolicy p) s = ([], s\<lparr>importConflictPolicy := p\<rparr>)"
| "handle b c0 ConflictCheck s = onConflictCheck b s"
| "handle b c0 ImportClick s = onImportClick b s"

text \<open>
  A session: events in order, each with the engine's answers at that moment. The
  result is every command invoked and the last state.
\<close>

fun handle_all :: "app_state \<Rightarrow> (backend \<times> event) list \<Rightarrow> app_state \<Rightarrow> ipc_call list \<times> app_state" where
  "handle_all c0 [] s = ([], s)"
| "handle_all c0 ((b, e) # rest) s =
     (case handle b c0 e s of
        (calls, s1) \<Rightarrow> (case handle_all c0 rest s1 of (later, s2) \<Rightarrow> (calls @ later, s2)))"

section \<open>Automatic save of the output directories\<close>

text \<open>
  The effect of lines 560 to 587 depends on the four output directory texts: React runs
  it after the first render and after every render in which one of the four differs
  from the render before, and before a new run it calls the function that the run
  before has returned, if it returned one. The effect reads the references
  \<^verbatim>\<open>settingsLoadedRef\<close> and \<^verbatim>\<open>settingsRef\<close> and keeps the handle of its timeout in
  \<^verbatim>\<open>outputSaveTimerRef\<close>. The timeouts that are set and neither run nor cleared
  belong to the window: each has its handle, the time in milliseconds at which it is
  due, and the four texts of the render that its callback has captured.
\<close>

record timer =
  handle_t :: nat
  due_t :: nat
  renameOutputDir_t :: string
  deleteRetreatDir_t :: string
  compressOutputDir_t :: string
  flattenOutputDir_t :: string

record autosave =
  app :: app_state
  settingsRef :: AppSettings
  settingsLoadedRef :: bool
  outputSaveTimerRef :: "nat option"
  cleanup :: bool
  timers :: "timer list"
  nextHandle :: nat
  clock :: nat

text \<open>
  The first render: nothing is loaded, no timeout is set, and the first run of the
  effect has returned at its first line, without a function to call later.
\<close>

definition autosave_init :: "string \<Rightarrow> autosave" where
  "autosave_init default_name =
     \<lparr>app = initial_state default_name, settingsRef = DEFAULT_SETTINGS default_name,
      settingsLoadedRef = False, outputSaveTimerRef = None, cleanup = False, timers = [],
      nextHandle = 1, clock = 0\<rparr>"

definition clearTimeout :: "nat \<Rightarrow> autosave \<Rightarrow> autosave" where
  "clearTimeout h s = s\<lparr>timers := filter (\<lambda>t. handle_t t \<noteq> h) (timers s)\<rparr>"

text \<open>\<^verbatim>\<open>if (outputSaveTimerRef.current !== null) window.clearTimeout(outputSaveTimerRef.current)\<close>.\<close>

definition clearOutputSaveTimer :: "autosave \<Rightarrow> autosave" where
  "clearOutputSaveTimer s =
     (case outputSaveTimerRef s of None \<Rightarrow> s | Some h \<Rightarrow> clearTimeout h s)"

text \<open>
  One run of the effect, at the time of the clock: the function returned by the run
  before, then the body.
\<close>

definition outputSaveEffect :: "autosave \<Rightarrow> autosave" where
  "outputSaveEffect s =
     (let s1 = (if cleanup s then clearOutputSaveTimer s else s)
      in if \<not> settingsLoadedRef s1 then s1\<lparr>cleanup := False\<rparr>
         else (let s2 = clearOutputSaveTimer s1;
                   h = nextHandle s2
               in s2\<lparr>timers := timers s2 @
                       [\<lparr>handle_t = h, due_t = clock s2 + 400,
                         renameOutputDir_t = renameOutputDir (app s2),
                         deleteRetreatDir_t = deleteRetreatDir (app s2),
                         compressOutputDir_t = compressOutputDir (app s2),
                         flattenOutputDir_t = flattenOutputDir (app s2)\<rparr>],
                     nextHandle := h + 1,
                     outputSaveTimerRef := Some h,
                     cleanup := True\<rparr>))"

text \<open>
  \<^verbatim>\<open>{ ...directories, key: value }\<close>: a key that is there keeps its place, a new key
  comes last.
\<close>

fun assign :: "string \<Rightarrow> string \<Rightarrow> (string \<times> string) list \<Rightarrow> (string \<times> string) list" where
  "assign k v [] = [(k, v)]"
| "assign k v ((k', v') # kvs) =
     (if k' = k then (k, v) # kvs else (k', v') # assign k v kvs)"

text \<open>The settings object that the callback builds (lines 566 to 575).\<close>

definition withOutputDirectories :: "AppSettings \<Rightarrow> string \<Rightarrow> string \<Rightarrow> string \<Rightarrow> string \<Rightarrow> AppSettings" where
  "withOutputDirectories base rename_dir retreat_dir compress_dir flatten_dir =
     base\<lparr>outputDirectories :=
            assign ''flatten'' (trim flatten_dir)
              (assign ''compress'' (trim compress_dir)
                (assign ''delete_retreat'' (trim retreat_dir)
                  (assign ''rename'' (trim rename_dir) (outputDirectories base))))\<rparr>"

text \<open>
  The callback of a timeout: it stores the new settings in the reference and in the
  state and invokes \<^verbatim>\<open>save_settings\<close>; a rejection becomes an error toast.
\<close>

definition outputSaveCallback :: "backend \<Rightarrow> timer \<Rightarrow> autosave \<Rightarrow> ipc_call list \<times> autosave" where
  "outputSaveCallback b t s =
     (let next = withOutputDirectories (settingsRef s) (renameOutputDir_t t)
                   (deleteRetreatDir_t t) (compressOutputDir_t t) (flattenOutputDir_t t);
          s1 = s\<lparr>settingsRef := next, app := (app s)\<lparr>settings := next\<rparr>\<rparr>
      in ([Save_settings next],
          (case save_settings b next of
             Inl text \<Rightarrow> s1\<lparr>app := addToast Error (Thrown (Rejected text)) (app s1)\<rparr>
           | Inr _ \<Rightarrow> s1)))"

fun run_timers :: "backend \<Rightarrow> timer list \<Rightarrow> autosave \<Rightarrow> ipc_call list \<times> autosave" where
  "run_timers b [] s = ([], s)"
| "run_timers b (t # ts) s =
     (case outputSaveCallback b t s of
        (calls, s1) \<Rightarrow> (case run_timers b ts s1 of (later, s2) \<Rightarrow> (calls @ later, s2)))"

text \<open>
  Time passes: the clock moves on by \<open>d\<close> milliseconds, and the timeouts that are due
  by then run, in the order in which they were set. A timeout never runs before it is
  due; that it runs before an event that comes at the same millisecond or later is an
  assumption on the window.
\<close>

definition elapse :: "backend \<Rightarrow> nat \<Rightarrow> autosave \<Rightarrow> ipc_call list \<times> autosave" where
  "elapse b d s =
     (let s1 = s\<lparr>clock := clock s + d\<rparr>
      in run_timers b (filter (\<lambda>t. due_t t \<le> clock s1) (timers s1))
           (s1\<lparr>timers := filter (\<lambda>t. clock s1 < due_t t) (timers s1)\<rparr>))"

text \<open>The dependency list of the effect.\<close>

definition outputDirs :: "app_state \<Rightarrow> string list" where
  "outputDirs c = [renameOutputDir c, deleteRetreatDir c, compressOutputDir c, flattenOutputDir c]"

text \<open>After a render: the effect runs if a dependency differs from the render before.\<close>

definition after_render :: "app_state \<Rightarrow> autosave \<Rightarrow> autosave" where
  "after_render before s =
     (if outputDirs (app s) = outputDirs before then s else outputSaveEffect s)"

datatype output_field = RenameOutput | DeleteRetreat | CompressOutput | FlattenOutput

fun setOutputDir :: "output_field \<Rightarrow> string \<Rightarrow> app_state \<Rightarrow> app_state" where
  "setOutputDir RenameOutput v c = c\<lparr>renameOutputDir := v\<rparr>"
| "setOutputDir DeleteRetreat v c = c\<lparr>deleteRetreatDir := v\<rparr>"
| "setOutputDir CompressOutput v c = c\<lparr>compressOutputDir := v\<rparr>"
| "setOutputDir FlattenOutput v c = c\<lparr>flattenOutputDir := v\<rparr>"

text \<open>
  The load of the first render (lines 501 to 528) answers once, with a rejection or
  with the settings and the availability of ffprobe; the settings path and the tag
  list, which come with them, go to state that is not modelled. The setters of the
  answer are applied together, and \<^verbatim>\<open>settingsLoadedRef\<close> is set before the effects
  of that render run.
\<close>

record loaded =
  loadedSettings :: AppSettings
  ffprobe :: bool

definition onLoaded :: "loaded \<Rightarrow> app_state \<Rightarrow> app_state" where
  "onLoaded l c =
     (let c1 = c\<lparr>settings := loadedSettings l, useFfprobe := ffprobe l\<rparr>;
          c2 = (case renameTemplates (loadedSettings l) of
                  [] \<Rightarrow> c1
                | t # _ \<Rightarrow> c1\<lparr>renameTemplate := template_t t\<rparr>)
      in c2\<lparr>renameOutputDir := directory_or_empty (loadedSettings l) ''rename'',
            deleteRetreatDir := directory_or_empty (loadedSettings l) ''delete_retreat'',
            compressOutputDir := directory_or_empty (loadedSettings l) ''compress'',
            flattenOutputDir := directory_or_empty (loadedSettings l) ''flatten''\<rparr>)"

text \<open>
  The events of the automatic save: the answer of the load, an edit of one of the four
  fields, and a moment at which nothing happens.
\<close>

datatype timed_event =
  LoadAnswered "string + loaded"
| EditOutputDir output_field string
| Idle

fun timed_handle :: "timed_event \<Rightarrow> autosave \<Rightarrow> autosave" where
  "timed_handle (LoadAnswered (Inl text)) s =
     s\<lparr>app := addToast Error (Thrown (Rejected text)) (app s)\<rparr>"
| "timed_handle (LoadAnswered (Inr l)) s =
     after_render (app s)
       (s\<lparr>app := onLoaded l (app s), settingsRef := loadedSettings l,
          settingsLoadedRef := True\<rparr>)"
| "timed_handle (EditOutputDir f v) s =
     after_render (app s) (s\<lparr>app := setOutputDir f v (app s)\<rparr>)"
| "timed_handle Idle s = s"

text \<open>
  A session with times: each event comes \<open>d\<close> milliseconds after the one before, with
  the engine's answers at that moment.
\<close>

fun timed_run :: "autosave \<Rightarrow> (nat \<times> backend \<times> timed_event) list \<Rightarrow> ipc_call list \<times> autosave" where
  "timed_run s [] = ([], s)"
| "timed_run s ((d, b, e) # rest) =
     (case elapse b d s of
        (calls, s1) \<Rightarrow>
          (case timed_run (timed_handle e s1) rest of (later, s2) \<Rightarrow> (calls @ later, s2)))"

section \<open>Notions used in the statements\<close>

text \<open>
  A path that the text area gives back as it is: not empty, no white space at either
  end, no comma and no line feed.
\<close>

definition stable_path :: "string \<Rightarrow> bool" where
  "stable_path p \<longleftrightarrow> p \<noteq> [] \<and> trim p = p \<and> CHR 0x0A \<notin> set p \<and> CHR '','' \<notin> set p"

text \<open>The preview command of each operation tab, and the execute result it has stored.\<close>

fun preview_command :: "TabKey \<Rightarrow> string" where
  "preview_command TabRename = ''preview_rename''"
| "preview_command TabDelete = ''preview_delete''"
| "preview_command TabCompress = ''preview_compress''"
| "preview_command TabFlatten = ''preview_flatten''"
| "preview_command TabExifOffset = ''preview_exif_offset''"
| "preview_command TabMetadataStrip = ''preview_metadata_strip''"
| "preview_command TabSettings = []"
| "preview_command TabAbout = []"

fun storedExec :: "TabKey \<Rightarrow> app_state \<Rightarrow> ExecuteResponse option" where
  "storedExec TabRename s = renameExec s"
| "storedExec TabDelete s = deleteExec s"
| "storedExec TabCompress s = compressExec s"
| "storedExec TabFlatten s = flattenExec s"
| "storedExec TabExifOffset s = exifOffsetExec s"
| "storedExec TabMetadataStrip s = metadataStripExec s"
| "storedExec TabSettings s = None"
| "storedExec TabAbout s = None"

text \<open>
  What \<^verbatim>\<open>previewCurrentTab\<close> asks of the render before it invokes anything, and the
  command with the request built from that render.
\<close>

fun has_input :: "TabKey \<Rightarrow> app_state \<Rightarrow> bool" where
  "has_input TabRename c = (renameFiles c \<noteq> [])"
| "has_input TabDelete c = (deleteFiles c \<noteq> [] \<and> parseExts (deleteExtensions c) \<noteq> [])"
| "has_input TabCompress c = (compressFiles c \<noteq> [])"
| "has_input TabFlatten c = (trim (flattenInputDir c) \<noteq> [])"
| "has_input TabExifOffset c = (exifOffsetFiles c \<noteq> [])"
| "has_input TabMetadataStrip c = (metadataStripFiles c \<noteq> [])"
| "has_input TabSettings c = False"
| "has_input TabAbout c = False"

fun preview_call :: "TabKey \<Rightarrow> app_state \<Rightarrow> ipc_call list" where
  "preview_call TabRename c = [Preview_rename (renameRequest c)]"
| "preview_call TabDelete c = [Preview_delete (deleteRequest c)]"
| "preview_call TabCompress c = [Preview_compress (compressRequest c None)]"
| "preview_call TabFlatten c = [Preview_flatten (flattenRequest c)]"
| "preview_call TabExifOffset c = [Preview_exif_offset (exifOffsetRequest c)]"
| "preview_call TabMetadataStrip c = [Preview_metadata_strip (metadataStripRequest c)]"
| "preview_call TabSettings c = []"
| "preview_call TabAbout c = []"

text \<open>The preview form asks the same, and on the EXIF offset tab an offset other than 0.\<close>

fun form_ready :: "TabKey \<Rightarrow> app_state \<Rightarrow> bool" where
  "form_ready TabExifOffset c = (exifOffsetFiles c \<noteq> [] \<and> totalOffsetSeconds c \<noteq> 0)"
| "form_ready k c = has_input k c"

text \<open>The handler of the preview form of each operation tab.\<close>

fun previewForm :: "backend \<Rightarrow> TabKey \<Rightarrow> app_state \<Rightarrow> ipc_call list \<times> app_state" where
  "previewForm b TabRename s = onRenameSubmit b s"
| "previewForm b TabDelete s = onDeleteSubmit b s"
| "previewForm b TabCompress s = onCompressSubmit b s"
| "previewForm b TabFlatten s = onFlattenSubmit b s"
| "previewForm b TabExifOffset s = onExifOffsetSubmit b s"
| "previewForm b TabMetadataStrip s = onMetadataStripSubmit b s"
| "previewForm b TabSettings s = ([], s)"
| "previewForm b TabAbout s = ([], s)"

fun is_directory_query :: "ipc_call \<Rightarrow> bool" where
  "is_directory_query (Is_directory_path _) = True"
| "is_directory_query _ = False"

text \<open>Requirements on a command that reaches the engine.\<close>

fun delete_request_ok :: "ipc_call \<Rightarrow> bool" where
  "delete_request_ok (Preview_delete r) = (extensions_d r \<noteq> [] \<and> inputPaths_d r \<noteq> [])"
| "delete_request_ok (Execute_delete r) = (extensions_d r \<noteq> [] \<and> inputPaths_d r \<noteq> [])"
| "delete_request_ok _ = True"

fun exif_request_ok :: "ipc_call \<Rightarrow> bool" where
  "exif_request_ok (Preview_exif_offset r) = (offsetSeconds_e r \<noteq> 0)"
| "exif_request_ok (Execute_exif_offset r) = (offsetSeconds_e r \<noteq> 0)"
| "exif_request_ok _ = True"

definition percent :: "int \<Rightarrow> bool" where
  "percent n \<longleftrightarrow> 1 \<le> n \<and> n \<le> 100"

fun compress_request_ok :: "ipc_call \<Rightarrow> bool" where
  "compress_request_ok (Preview_compress r) = (percent (resizePercent_c r) \<and> percent (quality_c r))"
| "compress_request_ok (Execute_compress r) = (percent (resizePercent_c r) \<and> percent (quality_c r))"
| "compress_request_ok _ = True"

definition compress_in_range :: "app_state \<Rightarrow> bool" where
  "compress_in_range s \<longleftrightarrow> percent (compressResizePercent s) \<and> percent (compressQuality s)"

text \<open>
  An engine whose effective values, as the calculate button stores them, are within
  1 to 100.
\<close>

definition effective_in_range :: "backend \<Rightarrow> bool" where
  "effective_in_range b \<longleftrightarrow>
     (\<forall>req r. preview_compress b req = Inr r \<longrightarrow>
        percent (Math_round (effectiveResizePercent r)) \<and> percent (effectiveQuality r))"

fun calculations_in_range :: "(backend \<times> event) list \<Rightarrow> bool" where
  "calculations_in_range [] = True"
| "calculations_in_range ((b, e) # rest) =
     ((e = CompressCalculate \<longrightarrow> effective_in_range b) \<and> calculations_in_range rest)"

text \<open>
  The answer that the button for the compress parameters works with: none when the
  target size is not a positive integer or the engine rejects the request.
\<close>

definition calculated :: "backend \<Rightarrow> app_state \<Rightarrow> CompressPreviewResponse option" where
  "calculated b s =
     (case parsePositiveInt (compressTargetSizeKb s) of
        None \<Rightarrow> None
      | Some parsed \<Rightarrow>
          (case preview_compress b
                  (compressRequest s (Some (parsed * UNIT_TO_KB (compressTargetSizeUnit s)))) of
             Inl _ \<Rightarrow> None
           | Inr r \<Rightarrow> Some r))"

text \<open>
  The button that computes the compress parameters can be clicked
  (\<^verbatim>\<open>disabled={isBusy || !compressFiles.length || !compressTargetSizeKb.trim()}\<close>), and so
  can a preview button (\<^verbatim>\<open>disabled={isBusy}\<close>).
\<close>

definition calculate_enabled :: "app_state \<Rightarrow> bool" where
  "calculate_enabled s \<longleftrightarrow>
     \<not> (isBusy s \<or> compressFiles s = [] \<or> trim (compressTargetSizeKb s) = [])"

definition preview_enabled :: "app_state \<Rightarrow> bool" where
  "preview_enabled s \<longleftrightarrow> \<not> isBusy s"

text \<open>The toast that \<^verbatim>\<open>run\<close> adds for an error thrown in the state \<open>s\<close>.\<close>

definition error_toast :: "app_state \<Rightarrow> error \<Rightarrow> Toast" where
  "error_toast s e = \<lparr>id_o = toastIdRef s + 1, type_o = Error, message_o = Thrown e\<rparr>"

text \<open>
  Notions for the automatic save. At most one timeout is pending, and it is the one
  whose handle the reference holds.
\<close>

definition tidy :: "autosave \<Rightarrow> bool" where
  "tidy s \<longleftrightarrow>
     length (timers s) \<le> 1
     \<and> list_all (\<lambda>t. outputSaveTimerRef s = Some (handle_t t)) (timers s)"

text \<open>No timeout is due within the next \<open>d\<close> milliseconds.\<close>

definition nothing_due :: "nat \<Rightarrow> autosave \<Rightarrow> bool" where
  "nothing_due d s \<longleftrightarrow> list_all (\<lambda>t. clock s + d < due_t t) (timers s)"

text \<open>The texts that the callback of a timeout has captured.\<close>

definition captured :: "timer \<Rightarrow> string list" where
  "captured t =
     [renameOutputDir_t t, deleteRetreatDir_t t, compressOutputDir_t t, flattenOutputDir_t t]"

text \<open>
  One save is pending: it is due 400 milliseconds from now and has captured the texts
  of the fields as they are now.
\<close>

definition armed :: "autosave \<Rightarrow> bool" where
  "armed s \<longleftrightarrow>
     settingsLoadedRef s \<and> tidy s
     \<and> map due_t (timers s) = [clock s + 400]
     \<and> map captured (timers s) = [outputDirs (app s)]"

text \<open>An edit that changes the text of its field.\<close>

fun changes :: "timed_event \<Rightarrow> app_state \<Rightarrow> bool" where
  "changes (EditOutputDir f v) c = (outputDirs (setOutputDir f v c) \<noteq> outputDirs c)"
| "changes (LoadAnswered _) c = False"
| "changes Idle c = False"

text \<open>Edits that each change a field and come less than 400 milliseconds after the event before.\<close>

fun burst :: "autosave \<Rightarrow> (nat \<times> backend \<times> timed_event) list \<Rightarrow> bool" where
  "burst s [] = True"
| "burst s ((d, b, e) # rest) =
     (d < 400 \<and> changes e (app s) \<and> burst (snd (timed_run s [(d, b, e)])) rest)"

text \<open>The settings that a save carries for the fields of the state \<open>c\<close>.\<close>

definition saved_settings :: "AppSettings \<Rightarrow> app_state \<Rightarrow> AppSettings" where
  "saved_settings base c =
     withOutputDirectories base (renameOutputDir c) (deleteRetreatDir c) (compressOutputDir c)
       (flattenOutputDir c)"

fun load_succeeds :: "nat \<times> backend \<times> timed_event \<Rightarrow> bool" where
  "load_succeeds (d, b, LoadAnswered (Inr l)) = True"
| "load_succeeds (d, b, e) = False"

section \<open>Examples\<close>

text \<open>An engine with fixed answers, and states for the examples below.\<close>

definition example_backend :: backend where
  "example_backend =
     \<lparr>preview_rename = (\<lambda>_. Inr \<lparr>total_v = 1, ready_v = 1, skipped_v = 0\<rparr>),
      preview_delete = (\<lambda>_. Inr \<lparr>total_v = 1, ready_v = 1, skipped_v = 0\<rparr>),
      execute_delete = (\<lambda>_. Inr \<lparr>processed_x = 1, succeeded_x = 1, failed_x = 0, skipped_x = 0\<rparr>),
      preview_compress =
        (\<lambda>_. Inr \<lparr>total_v = 1, ready_v = 1, skipped_v = 0,
                  effectiveResizePercent = 75 / 2, effectiveQuality = 60\<rparr>),
      execute_compress = (\<lambda>_. Inr \<lparr>processed_x = 1, succeeded_x = 1, failed_x = 0, skipped_x = 0\<rparr>),
      preview_flatten = (\<lambda>_. Inr \<lparr>total_v = 1, ready_v = 1, skipped_v = 0\<rparr>),
      preview_exif_offset = (\<lambda>_. Inr \<lparr>total_v = 1, ready_v = 1, skipped_v = 0\<rparr>),
      execute_exif_offset = (\<lambda>_. Inr \<lparr>processed_x = 1, succeeded_x = 1, failed_x = 0, skipped_x = 0\<rparr>),
      preview_metadata_strip = (\<lambda>_. Inr \<lparr>total_v = 1, ready_v = 1, skipped_v = 0\<rparr>),
      execute_metadata_strip = (\<lambda>_. Inr \<lparr>processed_x = 1, succeeded_x = 1, failed_x = 0, skipped_x = 0\<rparr>),
      preview_import_conflicts =
        (\<lambda>_. Inr \<lparr>deletePatternNames = [''temps''], renameTemplateNames = [],
                  outputDirectoryKeys = [], themeConflict = False\<rparr>),
      import_settings = (\<lambda>_ _ _. Inr (DEFAULT_SETTINGS ''imported'')),
      is_directory_path = (\<lambda>_. Inr False),
      save_settings = (\<lambda>_. Inr ())\<rparr>"

text \<open>An engine whose target-size solver answers with a resize of 0.4 percent.\<close>

definition low_backend :: backend where
  "low_backend =
     example_backend
       \<lparr>preview_compress :=
          (\<lambda>_. Inr \<lparr>total_v = 1, ready_v = 1, skipped_v = 0,
                    effectiveResizePercent = 4 / 10, effectiveQuality = 60\<rparr>)\<rparr>"

definition start :: app_state where
  "start = initial_state ''default''"

definition rename_example :: app_state where
  "rename_example =
     start\<lparr>renamePaths := ''C:/in/IMG.JPG'',
           renameExec := Some \<lparr>processed_x = 1, succeeded_x = 1, failed_x = 0, skipped_x = 0\<rparr>\<rparr>"

definition compress_example :: app_state where
  "compress_example =
     start\<lparr>compressSourceInfo := Some \<lparr>fileCount_i = 10, totalSize = 1000\<rparr>,
           compressResizePercent := 50, compressQuality := 100\<rparr>"

definition calculate_example :: app_state where
  "calculate_example = start\<lparr>compressPaths := ''C:/in/a.jpg'', compressTargetSizeKb := ''5''\<rparr>"

definition delete_example :: app_state where
  "delete_example = start\<lparr>deletePaths := ''C:/in'', deleteExtensions := '' , ''\<rparr>"

definition import_example :: app_state where
  "import_example = start\<lparr>importPath := '' C:/backup/settings.json ''\<rparr>"

definition exif_example :: app_state where
  "exif_example = start\<lparr>tab := TabExifOffset, exifOffsetPaths := ''C:/in/a.jpg''\<rparr>"

text \<open>
  A session that fills in the six forms and runs the execute buttons that are modelled,
  and the state after it.
\<close>

definition filling :: "(backend \<times> event) list" where
  "filling =
     [(example_backend, EditRenamePaths ''C:/in/a.jpg''),
      (example_backend, EditDeletePaths ''C:/in''),
      (example_backend, DeleteExecute),
      (example_backend, EditCompressPaths ''C:/in/a.jpg''),
      (example_backend, CompressExecute),
      (example_backend, EditFlattenInputDir ''C:/in''),
      (example_backend, EditExifOffsetPaths ''C:/in/a.jpg''),
      (example_backend, ExifOffsetHoursChange ''9''),
      (example_backend, ExifOffsetExecute),
      (example_backend, EditMetadataStripPaths ''C:/in/a.jpg''),
      (example_backend, MetadataStripExecute)]"

definition filled :: app_state where
  "filled = snd (handle_all start filling start)"

definition operation_tabs :: "TabKey list" where
  "operation_tabs = [TabRename, TabDelete, TabCompress, TabFlatten, TabExifOffset, TabMetadataStrip]"

text \<open>Settings as the load may answer them, and the state after that answer.\<close>

definition dark_settings :: AppSettings where
  "dark_settings =
     \<lparr>deletePatterns = [], renameTemplates = [], outputDirectories = [], theme = Dark\<rparr>"

definition loaded_example :: autosave where
  "loaded_example =
     snd (timed_run (autosave_init ''default'')
            [(20, example_backend,
              LoadAnswered (Inr \<lparr>loadedSettings = dark_settings, ffprobe = False\<rparr>))])"

section \<open>Trimming and splitting\<close>

lemma trim_hd_last:
  assumes "trim s = s" "s \<noteq> []"
  shows "\<not> js_whitespace (last s)"
proof -
  let ?z = "dropWhile js_whitespace (rev (dropWhile js_whitespace s))"
  from assms have z: "rev ?z = s" by (simp add: trim_def)
  with assms(2) have "?z \<noteq> []" by (metis rev_is_Nil_conv)
  then have "\<not> js_whitespace (hd ?z)" by (rule hd_dropWhile)
  moreover from z \<open>?z \<noteq> []\<close> have "last s = hd ?z" by (metis last_rev)
  ultimately show ?thesis by simp
qed

lemma set_trim: "set (trim s) \<subseteq> set s"
proof -
  have "set (trim s) = set (dropWhile js_whitespace (rev (dropWhile js_whitespace s)))"
    by (simp add: trim_def)
  also have "\<dots> \<subseteq> set (rev (dropWhile js_whitespace s))" by (rule set_dropWhileD[THEN subsetI]) 
  also have "\<dots> \<subseteq> set s" using set_dropWhileD by fastforce
  finally show ?thesis .
qed

lemma trim_trim: "trim (trim s) = trim s"
proof -
  let ?y = "dropWhile js_whitespace s"
  let ?w = "dropWhile js_whitespace (rev ?y)"
  have t: "trim s = rev ?w" by (simp add: trim_def)
  show ?thesis
  proof (cases "?w = []")
    case True
    show ?thesis unfolding t True by (simp add: trim_def)
  next
    case False
    then have nl: "\<not> js_whitespace (hd ?w)" by (rule hd_dropWhile)
    have "?y \<noteq> []"
    proof
      assume "?y = []"
      then have "?w = []" by (simp del: dropWhile_eq_Nil_conv)
      with False show False by blast
    qed
    then have nh: "\<not> js_whitespace (hd ?y)" by (rule hd_dropWhile)
    obtain zs where zs: "rev ?y = zs @ ?w" 
      by (metis takeWhile_dropWhile_id)
    then have "?y = rev ?w @ rev zs" by (metis rev_append rev_rev_ident)
    with False have "hd (rev ?w) = hd ?y" by (metis hd_append2 rev_is_Nil_conv)
    with nh have "\<not> js_whitespace (hd (rev ?w))" by simp
    with False have d1: "dropWhile js_whitespace (rev ?w) = rev ?w"
      by (cases "rev ?w") auto
    from nl False have d2: "dropWhile js_whitespace ?w = ?w" by (cases ?w) auto
    show ?thesis unfolding t by (simp add: trim_def d1 d2 del: dropWhile_eq_Nil_conv)
  qed
qed

lemma path_sep_zero:
  "c \<noteq> CHR 0x0A \<Longrightarrow> c \<noteq> CHR '','' \<Longrightarrow> (c = CHR 0x0D \<Longrightarrow> cs \<noteq> [] \<and> hd cs \<noteq> CHR 0x0A) \<Longrightarrow> path_sep (c # cs) = 0"
  by (cases cs) auto

lemma path_sep_pos: "path_sep (c # cs) = 0 \<Longrightarrow> c \<noteq> CHR 0x0A \<and> c \<noteq> CHR '',''"
  by (cases cs) (auto split: if_splits)

lemma split_last_piece:
  "CHR 0x0A \<notin> set x \<Longrightarrow> CHR '','' \<notin> set x \<Longrightarrow> js_split path_sep acc x = [rev acc @ x]"
proof (induction x arbitrary: acc)
  case Nil
  then show ?case by simp
next
  case (Cons c x)
  have "path_sep (c # x) = 0"
    using Cons.prems by (cases x) auto
  with Cons show ?case by simp
qed

lemma split_piece:
  "CHR 0x0A \<notin> set x \<Longrightarrow> CHR '','' \<notin> set x \<Longrightarrow> x = [] \<or> last x \<noteq> CHR 0x0D \<Longrightarrow>
   js_split path_sep acc (x @ CHR 0x0A # rest) = (rev acc @ x) # js_split path_sep [] rest"
proof (induction x arbitrary: acc)
  case Nil
  have "path_sep (CHR 0x0A # rest) = 1" by (cases rest) auto
  then show ?case by simp
next
  case (Cons c x)
  have z: "path_sep (c # x @ CHR 0x0A # rest) = 0"
    using Cons.prems by (cases x) auto
  have "x = [] \<or> last x \<noteq> CHR 0x0D" using Cons.prems(3) by (cases x) auto
  with Cons z show ?case by simp
qed

lemma stable_last: "stable_path p \<Longrightarrow> last p \<noteq> CHR 0x0D"
  using trim_hd_last[of p] by (auto simp: stable_path_def js_whitespace_def)

lemma split_join:
  "\<forall>x \<in> set xs. stable_path x \<Longrightarrow> xs \<noteq> [] \<Longrightarrow> js_split path_sep [] (join [CHR 0x0A] xs) = xs"
proof (induction xs rule: induct_list012)
  case 1
  then show ?case by simp
next
  case (2 x)
  then show ?case by (simp add: split_last_piece stable_path_def)
next
  case (3 x y ys)
  have x: "stable_path x" using "3.prems" by simp
  have "js_split path_sep [] (x @ CHR 0x0A # join [CHR 0x0A] (y # ys)) = x # js_split path_sep [] (join [CHR 0x0A] (y # ys))"
    using split_piece[of x "[]" "join [CHR 0x0A] (y # ys)"] x stable_last[OF x]
    by (simp add: stable_path_def)
  with 3 show ?case by simp
qed

lemma parsePaths_join:
  assumes "\<forall>x \<in> set xs. stable_path x"
  shows "parsePaths (join [CHR 0x0A] xs) = xs"
proof (cases "xs = []")
  case True
  then show ?thesis by (simp add: parsePaths_def trim_def truthy_def)
next
  case False
  have "filter truthy (map trim xs) = xs"
    using assms by (induction xs) (auto simp: stable_path_def truthy_def)
  with False assms show ?thesis by (simp add: parsePaths_def split_join)
qed

lemma split_pieces_clean:
  "t \<in> set (js_split path_sep acc s) \<Longrightarrow> CHR 0x0A \<notin> set acc \<Longrightarrow> CHR '','' \<notin> set acc \<Longrightarrow>
   CHR 0x0A \<notin> set t \<and> CHR '','' \<notin> set t"
proof (induction path_sep acc s arbitrary: t rule: js_split.induct)
  case (1 acc)
  then show ?case by simp
next
  case (2 acc c cs)
  show ?case
  proof (cases "path_sep (c # cs) = 0")
    case True
    with 2 path_sep_pos[OF True] show ?thesis by auto
  next
    case False
    with 2 show ?thesis by auto
  qed
qed

lemma parsePaths_stable: "t \<in> set (parsePaths v) \<Longrightarrow> stable_path t"
proof -
  assume "t \<in> set (parsePaths v)"
  then obtain p where p: "p \<in> set (js_split path_sep [] v)" and t: "t = trim p" and ne: "t \<noteq> []"
    by (auto simp: parsePaths_def truthy_def)
  from split_pieces_clean[OF p] have "CHR 0x0A \<notin> set p \<and> CHR '','' \<notin> set p" by simp
  with set_trim[of p] t have "CHR 0x0A \<notin> set t \<and> CHR '','' \<notin> set t" by auto
  with t ne show ?thesis by (simp add: stable_path_def trim_trim)
qed

section \<open>Merging dropped paths into a path text\<close>

lemma set_add_fold_set: "set (foldl set_add acc xs) = set acc \<union> set xs"
  by (induction xs arbitrary: acc) (auto simp: set_add_def)

lemma set_add_fold_distinct: "distinct acc \<Longrightarrow> distinct (foldl set_add acc xs)"
  by (induction xs arbitrary: acc) (auto simp: set_add_def)

lemma set_add_fold_prefix: "prefix acc (foldl set_add acc xs)"
proof (induction xs arbitrary: acc)
  case Nil
  then show ?case by simp
next
  case (Cons x xs)
  have "prefix acc (set_add acc x)" by (simp add: set_add_def)
  then show ?case using Cons[of "set_add acc x"] by (auto intro: prefix_order.trans)
qed

lemma set_add_fold_absorb: "set xs \<subseteq> set acc \<Longrightarrow> foldl set_add acc xs = acc"
  by (induction xs arbitrary: acc) (auto simp: set_add_def)

lemma new_Set_first_occurrences: "new_Set xs = rev (remdups (rev xs))"
proof -
  have "foldl set_add acc xs = acc @ filter (\<lambda>x. x \<notin> set acc) (rev (remdups (rev xs)))" for acc :: "'a list"
  proof (induction xs rule: rev_induct)
    case Nil
    then show ?case by simp
  next
    case (snoc x xs)
    then show ?case by (auto simp: set_add_def)
  qed
  from this[of "[]"] show ?thesis by (simp add: new_Set_def)
qed

lemma set_add_fold_fresh:
  "distinct ys \<Longrightarrow> set ys \<inter> set acc = {} \<Longrightarrow> foldl set_add acc ys = acc @ ys"
  by (induction ys arbitrary: acc) (auto simp: set_add_def)

lemma new_Set_append_absorb:
  "set ys \<subseteq> set xs \<Longrightarrow> new_Set (new_Set xs @ ys) = new_Set xs"
proof -
  assume a: "set ys \<subseteq> set xs"
  have d: "distinct (new_Set xs)" by (simp add: new_Set_def set_add_fold_distinct)
  have s: "set (new_Set xs) = set xs" by (simp add: new_Set_def set_add_fold_set)
  have "foldl set_add [] (new_Set xs) = new_Set xs"
    using d set_add_fold_fresh[of "new_Set xs" "[]"] by simp
  then show ?thesis using a s by (simp add: new_Set_def set_add_fold_absorb)
qed

text \<open>
  C10, as amended. When every non-empty incoming path is one that the text area gives
  back unchanged (no white space at either end, no comma, no line feed), the text that
  \<^verbatim>\<open>mergePathText\<close> returns reads back as the merged list: the paths already in the
  text followed by the new ones, each once, in the order of first occurrence
  (\<open>new_Set_first_occurrences\<close>); and merging the same incoming paths once more gives
  the same text.
\<close>

theorem mergePathText_stable:
  assumes "\<forall>p \<in> set incoming. p \<noteq> [] \<longrightarrow> stable_path p"
  shows "parsePaths (mergePathText current incoming) = new_Set (parsePaths current @ filter truthy incoming)
       \<and> distinct (parsePaths (mergePathText current incoming))
       \<and> set (parsePaths (mergePathText current incoming)) = set (parsePaths current) \<union> {p \<in> set incoming. p \<noteq> []}
       \<and> prefix (new_Set (parsePaths current)) (parsePaths (mergePathText current incoming))
       \<and> mergePathText (mergePathText current incoming) incoming = mergePathText current incoming"
proof -
  let ?L = "parsePaths current @ filter truthy incoming"
  let ?M = "new_Set ?L"
  have st: "\<forall>x \<in> set ?M. stable_path x"
    using assms parsePaths_stable by (auto simp: new_Set_def set_add_fold_set truthy_def)
  have rd: "parsePaths (mergePathText current incoming) = ?M"
    using st by (simp add: mergePathText_def parsePaths_join)
  have d: "distinct ?M" by (simp add: new_Set_def set_add_fold_distinct)
  have s: "set ?M = set (parsePaths current) \<union> {p \<in> set incoming. p \<noteq> []}"
    by (auto simp: new_Set_def set_add_fold_set truthy_def)
  have p: "prefix (new_Set (parsePaths current)) ?M"
    by (simp add: new_Set_def set_add_fold_prefix)
  have "new_Set (?M @ filter truthy incoming) = ?M"
    by (rule new_Set_append_absorb) auto
  then have i: "mergePathText (mergePathText current incoming) incoming = mergePathText current incoming"
    using rd by (simp add: mergePathText_def Let_def)
  from rd d s p i show ?thesis by simp
qed

text \<open>
  A dropped file whose name has a comma: the second merge splits the name that the first
  merge wrote, so the text changes.
\<close>

theorem mergePathText_idempotent_counterexample:
  "mergePathText (mergePathText [] [''a,b'']) [''a,b''] \<noteq> mergePathText [] [''a,b'']"
  by code_simp

theorem mergePathText_stable_witness:
  "mergePathText (mergePathText ''a.jpg'' [''b.jpg'', ''a.jpg'']) [''b.jpg'', ''a.jpg'']
     = mergePathText ''a.jpg'' [''b.jpg'', ''a.jpg'']
   \<and> parsePaths (mergePathText ''a.jpg'' [''b.jpg'', ''a.jpg'']) = [''a.jpg'', ''b.jpg'']"
proof -
  have h: "\<forall>p \<in> set [''b.jpg'', ''a.jpg'']. p \<noteq> [] \<longrightarrow> stable_path p" by code_simp
  have n: "new_Set (parsePaths ''a.jpg'' @ filter truthy [''b.jpg'', ''a.jpg'']) = [''a.jpg'', ''b.jpg'']"
    by code_simp
  from mergePathText_stable[OF h, of "''a.jpg''"] n show ?thesis by simp
qed

section \<open>Extension lists\<close>

lemma sublist_trim: "sublist (trim s) s"
proof -
  have "sublist (dropWhile js_whitespace (rev (dropWhile js_whitespace s))) (rev (dropWhile js_whitespace s))"
    by simp
  then have "sublist (trim s) (dropWhile js_whitespace s)"
    by (simp add: trim_def sublist_rev_left)
  moreover have "sublist (dropWhile js_whitespace s) s" by simp
  ultimately show ?thesis by (rule sublist_order.order.trans)
qed

lemma ext_sep_zero: "ext_sep (c # cs) = 0 \<longleftrightarrow> \<not> ext_sep_char c"
  by (simp add: ext_sep_def)

lemma ext_pieces:
  "t \<in> set (js_split ext_sep acc s) \<Longrightarrow>
   (\<forall>ch \<in> set t. ch \<in> set acc \<or> \<not> ext_sep_char ch) \<and> sublist t (rev acc @ s)"
proof (induction ext_sep acc s arbitrary: t rule: js_split.induct)
  case (1 acc)
  then show ?case by simp
next
  case (2 acc c cs)
  show ?case
  proof (cases "ext_sep (c # cs) = 0")
    case True
    with 2 have "(\<forall>ch \<in> set t. ch \<in> set (c # acc) \<or> \<not> ext_sep_char ch) \<and> sublist t (rev (c # acc) @ cs)"
      by simp
    moreover from True have "\<not> ext_sep_char c" by (simp add: ext_sep_zero)
    ultimately show ?thesis by auto
  next
    case False
    with "2.prems" consider "t = rev acc" | "t \<in> set (js_split ext_sep [] (drop (ext_sep (c # cs) - 1) cs))"
      by auto
    then show ?thesis
    proof cases
      case 1
      then show ?thesis by simp
    next
      case 2
      with "2.hyps"(2)[OF False] have a: "(\<forall>ch \<in> set t. \<not> ext_sep_char ch)"
        and b: "sublist t (drop (ext_sep (c # cs) - 1) cs)" by auto
      have "sublist (drop (ext_sep (c # cs) - 1) cs) (rev acc @ c # cs)"
        by (metis append_Cons append_Nil append_assoc sublist_append_leftI sublist_drop sublist_order.order.trans)
      with b have "sublist t (rev acc @ c # cs)" by (rule sublist_order.order.trans)
      with a show ?thesis by simp
    qed
  qed
qed

lemma lower_unit_not_upper: "\<not> is_upper (lower_unit c)"
  by (auto simp: is_upper_def lower_unit_def Let_def)

lemma lower_unit_idem: "lower_unit (lower_unit c) = lower_unit c"
  using lower_unit_not_upper[of c] by (simp add: lower_unit_def[of "lower_unit c"])

lemma of_char_lower_unit:
  "(of_char (lower_unit c) :: nat) = (if is_upper c then of_char c + 32 else of_char c)"
  by (auto simp: is_upper_def lower_unit_def Let_def)

lemma ext_sep_char_code:
  "ext_sep_char c \<longleftrightarrow> (of_char c :: nat) \<in> {9, 10, 11, 12, 13, 32, 44, 160}"
proof -
  have eq: "c = d \<longleftrightarrow> (of_char c :: nat) = of_char d" for d by simp
  show ?thesis
    unfolding ext_sep_char_def js_whitespace_def eq[of "CHR 0x0D"] eq[of "CHR 0x0A"] eq[of "CHR '',''"]
    by auto
qed

lemma lower_unit_sep: "ext_sep_char (lower_unit c) \<Longrightarrow> ext_sep_char c"
  unfolding ext_sep_char_code of_char_lower_unit
  by (auto simp: is_upper_def Let_def split: if_splits)

lemma lower_unit_dot:
  assumes "lower_unit c = CHR ''.''"
  shows "c = CHR ''.''"
proof -
  from assms have "(of_char (lower_unit c) :: nat) = of_char (CHR ''.'')" by simp
  then have "(of_char c :: nat) = of_char (CHR ''.'')"
    unfolding of_char_lower_unit by (auto simp: is_upper_def Let_def split: if_splits)
  then show ?thesis by (rule of_char_eqI)
qed

lemma set_replace_leading_dot: "set (replace_leading_dot s) \<subseteq> set s"
  by (cases s) auto

text \<open>
  C4, as amended. Every entry of the parsed extension list is non-empty, has no
  upper-case letter and no separator (comma, white space, line break), and is fixed by
  \<^verbatim>\<open>toLowerCase\<close>. One leading dot of a token is removed: an entry begins with a dot
  only if the text has two dots in a row.
\<close>

theorem parseExts_entries:
  assumes "e \<in> set (parseExts v)"
  shows "e \<noteq> [] \<and> list_all (\<lambda>ch. \<not> is_upper ch \<and> \<not> ext_sep_char ch) e \<and> toLowerCase e = e
         \<and> (hd e = CHR ''.'' \<longrightarrow> sublist ''..'' v)"
proof -
  from assms obtain t where t: "t \<in> set (js_split ext_sep [] v)"
    and e: "e = toLowerCase (replace_leading_dot (trim t))" and ne: "e \<noteq> []"
    by (auto simp: parseExts_def truthy_def)
  let ?u = "trim t" let ?r = "replace_leading_dot ?u"
  from ext_pieces[OF t] have clean: "\<forall>ch \<in> set t. \<not> ext_sep_char ch" and sub: "sublist t v"
    by auto
  have "set ?r \<subseteq> set t" using set_replace_leading_dot[of ?u] set_trim[of t] by blast
  with clean have "\<forall>ch \<in> set ?r. \<not> ext_sep_char ch" by blast
  then have a: "list_all (\<lambda>ch. \<not> is_upper ch \<and> \<not> ext_sep_char ch) e"
    unfolding e toLowerCase_def list_all_iff using lower_unit_not_upper lower_unit_sep by auto
  have b: "toLowerCase e = e"
    unfolding e toLowerCase_def by (simp add: lower_unit_idem)
  have c: "sublist ''..'' v" if h: "hd e = CHR ''.''"
  proof -
    from ne e have rne: "?r \<noteq> []" by (simp add: toLowerCase_def)
    with h e have "lower_unit (hd ?r) = CHR ''.''" by (simp add: toLowerCase_def hd_map)
    then have hr: "hd ?r = CHR ''.''" by (rule lower_unit_dot)
    from rne obtain c cs where u: "?u = c # cs" by (cases ?u) auto
    with hr rne have "c = CHR ''.'' \<and> cs \<noteq> [] \<and> hd cs = CHR ''.''"
      by (auto split: if_splits)
    with u obtain ds where "?u = ''..'' @ ds" by (cases cs) auto
    then have "sublist ''..'' ?u" by (metis sublist_append_rightI)
    then have "sublist ''..'' t" using sublist_trim[of t] by (rule sublist_order.order.trans)
    then show ?thesis using sub by (rule sublist_order.order.trans)
  qed
  from ne a b c show ?thesis by simp
qed

theorem parseExts_entries_witness:
  "''jpg'' \<in> set (parseExts ''.JPG, png'') \<and> toLowerCase ''jpg'' = ''jpg'' \<and> \<not> is_upper (CHR ''j'')"
proof -
  have m: "''jpg'' \<in> set (parseExts ''.JPG, png'')" by code_simp
  from parseExts_entries[OF m] m show ?thesis by simp
qed

text \<open>The token \<^verbatim>\<open>..jpg\<close> keeps a leading dot.\<close>

theorem parseExts_leading_dot_counterexample:
  "parseExts ''..jpg'' = [''.jpg'']"
  by code_simp

section \<open>Commands invoked by the handlers\<close>

lemma fst_run: "fst (run a l s) = fst (a (s\<lparr>isBusy := True, busyLabel := l\<rparr>))"
  by (simp add: run_def split: prod.splits)

lemma fst_await: "fst (await call ans s k) = [call]"
  by (simp add: await_def split: sum.splits)

lemma calls_previewCurrentTab:
  "fst (previewCurrentTab b c k s) =
     (case k of
        TabRename \<Rightarrow> if renameFiles c = [] then [] else [Preview_rename (renameRequest c)]
      | TabDelete \<Rightarrow> if deleteFiles c = [] \<or> parseExts (deleteExtensions c) = [] then []
                     else [Preview_delete (deleteRequest c)]
      | TabCompress \<Rightarrow> if compressFiles c = [] then [] else [Preview_compress (compressRequest c None)]
      | TabFlatten \<Rightarrow> if trim (flattenInputDir c) = [] then [] else [Preview_flatten (flattenRequest c)]
      | TabExifOffset \<Rightarrow> if exifOffsetFiles c = [] then [] else [Preview_exif_offset (exifOffsetRequest c)]
      | TabMetadataStrip \<Rightarrow> if metadataStripFiles c = [] then []
                            else [Preview_metadata_strip (metadataStripRequest c)]
      | TabSettings \<Rightarrow> []
      | TabAbout \<Rightarrow> [])"
  by (cases k) (simp_all add: fst_await)

lemma calls_onRenameSubmit:
  "fst (onRenameSubmit b s) =
     (if renameFiles s = [] then [] else [Preview_rename (renameRequest s)])"
  by (simp add: onRenameSubmit_def renameSubmitAction_def fst_run fst_await)

lemma calls_onFlattenSubmit:
  "fst (onFlattenSubmit b s) =
     (if trim (flattenInputDir s) = [] then [] else [Preview_flatten (flattenRequest s)])"
  by (simp add: onFlattenSubmit_def flattenSubmitAction_def fst_run fst_await)

lemma calls_onDeleteSubmit:
  "fst (onDeleteSubmit b s) =
     (if deleteFiles s = [] \<or> parseExts (deleteExtensions s) = [] then []
      else [Preview_delete (deleteRequest s)])"
  by (simp add: onDeleteSubmit_def deleteSubmitAction_def fst_run fst_await)

lemma calls_onDeleteExecute:
  "fst (onDeleteExecute b s) =
     (if deleteFiles s = [] \<or> parseExts (deleteExtensions s) = [] then []
      else [Execute_delete (deleteRequest s)])"
  by (simp add: onDeleteExecute_def deleteExecuteAction_def fst_run fst_await)

lemma calls_onCompressSubmit:
  "fst (onCompressSubmit b s) =
     (if compressFiles s = [] then [] else [Preview_compress (compressRequest s None)])"
  by (simp add: onCompressSubmit_def compressSubmitAction_def fst_run fst_await)

lemma calls_onCompressExecute:
  "fst (onCompressExecute b s) =
     (if compressFiles s = [] then [] else [Execute_compress (compressRequest s None)])"
  by (simp add: onCompressExecute_def compressExecuteAction_def fst_run fst_await)

lemma calls_onCompressCalculate:
  "fst (onCompressCalculate b s) =
     (case parsePositiveInt (compressTargetSizeKb s) of
        None \<Rightarrow> []
      | Some parsed \<Rightarrow>
          [Preview_compress (compressRequest s (Some (parsed * UNIT_TO_KB (compressTargetSizeUnit s))))])"
  by (simp add: onCompressCalculate_def compressCalculateAction_def fst_run fst_await Let_def
      split: option.splits)

lemma calls_onExifOffsetSubmit:
  "fst (onExifOffsetSubmit b s) =
     (if exifOffsetFiles s = [] \<or> totalOffsetSeconds s = 0 then []
      else [Preview_exif_offset (exifOffsetRequest s)])"
  by (simp add: onExifOffsetSubmit_def exifOffsetSubmitAction_def fst_run fst_await)

lemma calls_onExifOffsetExecute:
  "fst (onExifOffsetExecute b s) =
     (if exifOffsetFiles s = [] \<or> totalOffsetSeconds s = 0 then []
      else [Execute_exif_offset (exifOffsetRequest s)])"
  by (simp add: onExifOffsetExecute_def exifOffsetExecuteAction_def fst_run fst_await)

lemma calls_onMetadataStripSubmit:
  "fst (onMetadataStripSubmit b s) =
     (if metadataStripFiles s = [] then [] else [Preview_metadata_strip (metadataStripRequest s)])"
  by (simp add: onMetadataStripSubmit_def metadataStripSubmitAction_def fst_run fst_await)

lemma calls_onMetadataStripExecute:
  "fst (onMetadataStripExecute b s) =
     (if metadataStripFiles s = [] then [] else [Execute_metadata_strip (metadataStripRequest s)])"
  by (simp add: onMetadataStripExecute_def metadataStripExecuteAction_def fst_run fst_await)

lemma calls_refreshImportConflicts:
  "fst (refreshImportConflicts b c s) =
     (if trim (importPath c) = [] \<or> importMode c \<noteq> ModeMerge then []
      else [Preview_import_conflicts (trim (importPath c))])"
  by (simp add: refreshImportConflicts_def split: sum.splits)

lemma calls_onConflictCheck:
  "fst (onConflictCheck b s) =
     (if trim (importPath s) = [] \<or> importMode s \<noteq> ModeMerge then []
      else [Preview_import_conflicts (trim (importPath s))])"
  by (simp add: onConflictCheck_def fst_run refreshImportConflicts_def split: sum.splits)

lemma calls_importNow:
  "fst (importNow b c calls s) =
     calls @ [Import_settings (trim (importPath c)) (importMode c) (importConflictPolicy c)]"
  by (simp add: importNow_def Let_def split: sum.splits)

lemma calls_firstDirectory: "list_all is_directory_query (fst (firstDirectory b ps s))"
  by (induction ps) (auto split: sum.splits prod.splits)

lemma calls_applyPathsToCurrentTab:
  "list_all is_directory_query (fst (applyPathsToCurrentTab b incoming s))"
  by (simp add: applyPathsToCurrentTab_def Let_def calls_firstDirectory split: TabKey.splits)

lemma calls_onDragDrop:
  assumes "\<And>call. is_directory_query call \<Longrightarrow> P call"
    and "\<And>k s1. list_all P (fst (previewCurrentTab b c0 k s1))"
  shows "list_all P (fst (onDragDrop b c0 paths s))"
proof -
  let ?s = "s\<lparr>isDragOver := False, isBusy := True, busyLabel := None\<rparr>"
  obtain calls1 s1 t where a: "applyPathsToCurrentTab b paths ?s = (calls1, s1, t)"
    by (cases "applyPathsToCurrentTab b paths ?s") auto
  from calls_applyPathsToCurrentTab[of b paths ?s] a have "list_all is_directory_query calls1"
    by simp
  with assms(1) have p1: "list_all P calls1" by (auto simp: list_all_iff)
  show ?thesis
  proof (cases t)
    case None
    obtain calls2 s2 t2 where p: "previewCurrentTab b c0 (tab ?s) s1 = (calls2, s2, t2)"
      by (cases "previewCurrentTab b c0 (tab ?s) s1") auto
    from assms(2)[of "tab ?s" s1] p have "list_all P calls2" by simp
    with p1 a None p show ?thesis
      by (simp add: onDragDrop_def fst_run dropAction_def Let_def)
  next
    case (Some e)
    with p1 a show ?thesis
      by (simp add: onDragDrop_def fst_run dropAction_def Let_def)
  qed
qed

lemma calls_handle_all:
  assumes "\<And>b e s. (b, e) \<in> set evs \<Longrightarrow> list_all P (fst (handle b c0 e s))"
  shows "list_all P (fst (handle_all c0 evs s))"
  using assms
proof (induction evs arbitrary: s)
  case Nil
  then show ?case by simp
next
  case (Cons be evs)
  obtain b e where be: "be = (b, e)" by (cases be)
  obtain calls s1 where h: "handle b c0 e s = (calls, s1)" by (cases "handle b c0 e s")
  obtain later s2 where r: "handle_all c0 evs s1 = (later, s2)" by (cases "handle_all c0 evs s1")
  from Cons.prems[of b e s] be h have "list_all P calls" by simp
  moreover from Cons.IH[of s1] Cons.prems r have "list_all P later" by simp
  ultimately show ?case using be h r by simp
qed

lemma toasts_run_error:
  "a (s\<lparr>isBusy := True, busyLabel := l\<rparr>) = ([], s\<lparr>isBusy := True, busyLabel := l\<rparr>, Some e) \<Longrightarrow>
   toasts (snd (run a l s)) = toasts s @ [error_toast s e]"
  by (simp add: run_def addToast_def error_toast_def Let_def)


section \<open>Preview of the current tab\<close>

lemma previewCurrentTab_calls:
  "fst (previewCurrentTab b c k s) = (if has_input k c then preview_call k c else [])"
  by (cases k) (simp_all add: fst_await)

lemma previewForm_calls:
  "fst (previewForm b k s) = (if form_ready k s then preview_call k s else [])"
  by (cases k)
    (simp_all add: calls_onRenameSubmit calls_onFlattenSubmit calls_onDeleteSubmit
      calls_onCompressSubmit calls_onExifOffsetSubmit calls_onMetadataStripSubmit)

lemma preview_call_names:
  "list_all (\<lambda>call. command_name call = preview_command k
                    \<and> take 8 (command_name call) \<noteq> ''execute_'') (preview_call k c)"
  by (cases k) simp_all

lemma previewCurrentTab_silent:
  "\<not> has_input k c \<Longrightarrow> previewCurrentTab b c k s = ([], s, None)"
  by (cases k) auto

lemma previewCurrentTab_exec:
  "storedExec k (fst (snd (previewCurrentTab b c k s)))
     = (if has_input k c then None else storedExec k s)"
  by (cases k) (auto simp: await_def addToast_def Let_def split: sum.splits)

lemma previewCurrentTab_frame:
  "k' \<noteq> k \<Longrightarrow> storedExec k' (fst (snd (previewCurrentTab b c k s))) = storedExec k' s"
  by (cases k; cases k') (auto simp: await_def addToast_def Let_def split: sum.splits)

lemma previewForm_exec:
  "storedExec k (snd (previewForm b k s)) = (if form_ready k s then None else storedExec k s)"
  by (cases k)
    (auto simp: run_def await_def addToast_def Let_def
      onRenameSubmit_def renameSubmitAction_def onFlattenSubmit_def flattenSubmitAction_def
      onDeleteSubmit_def deleteSubmitAction_def onCompressSubmit_def compressSubmitAction_def
      onExifOffsetSubmit_def exifOffsetSubmitAction_def
      onMetadataStripSubmit_def metadataStripSubmitAction_def
      split: sum.splits)

lemma previewForm_frame:
  "k' \<noteq> k \<Longrightarrow> storedExec k' (snd (previewForm b k s)) = storedExec k' s"
  by (cases k; cases k')
    (auto simp: run_def await_def addToast_def Let_def
      onRenameSubmit_def renameSubmitAction_def onFlattenSubmit_def flattenSubmitAction_def
      onDeleteSubmit_def deleteSubmitAction_def onCompressSubmit_def compressSubmitAction_def
      onExifOffsetSubmit_def exifOffsetSubmitAction_def
      onMetadataStripSubmit_def metadataStripSubmitAction_def
      split: sum.splits)

lemma calculate_exec:
  "compressExec (snd (onCompressCalculate b s))
     = (case parsePositiveInt (compressTargetSizeKb s) of None \<Rightarrow> compressExec s | Some p \<Rightarrow> None)"
  by (simp add: onCompressCalculate_def run_def compressCalculateAction_def await_def addToast_def
      Let_def split: option.splits sum.splits)


text \<open>
  C1. On every tab, \<^verbatim>\<open>previewCurrentTab\<close> invokes the preview command of that tab, with
  the request built from the render it reads, when that render has the input the tab
  asks for, and nothing otherwise; the preview form of the tab does the same with the
  state it is submitted in, where the EXIF offset tab also asks for an offset other
  than 0. These commands are preview commands, never execute commands, and an operation
  tab has exactly one. Whenever the command is invoked the stored execute result of the
  tab has been cleared, whatever the engine answers; without the command it stays as it
  is, and the execute results of the other tabs always stay. Without its input
  \<^verbatim>\<open>previewCurrentTab\<close> returns the state as it was and throws nothing. The button that
  computes the compress parameters invokes the compress preview, once, exactly when the
  target size is a positive integer, and then it has cleared the stored compress result.
\<close>

theorem preview_invokes_preview_only:
  "fst (previewCurrentTab b c k s) = (if has_input k c then preview_call k c else [])
   \<and> fst (previewForm b k s) = (if form_ready k s then preview_call k s else [])
   \<and> list_all (\<lambda>call. command_name call = preview_command k
                      \<and> take 8 (command_name call) \<noteq> ''execute_'')
       (preview_call k c @ fst (previewCurrentTab b c k s) @ fst (previewForm b k s))
   \<and> (k \<in> set operation_tabs \<longrightarrow> length (preview_call k c) = 1)
   \<and> storedExec k (fst (snd (previewCurrentTab b c k s)))
       = (if has_input k c then None else storedExec k s)
   \<and> storedExec k (snd (previewForm b k s)) = (if form_ready k s then None else storedExec k s)
   \<and> (\<forall>k'. k' \<noteq> k \<longrightarrow>
        storedExec k' (fst (snd (previewCurrentTab b c k s))) = storedExec k' s
        \<and> storedExec k' (snd (previewForm b k s)) = storedExec k' s)
   \<and> (\<not> has_input k c \<longrightarrow> previewCurrentTab b c k s = ([], s, None))
   \<and> map command_name (fst (onCompressCalculate b s))
       = (case parsePositiveInt (compressTargetSizeKb s) of
            None \<Rightarrow> []
          | Some p \<Rightarrow> [''preview_compress''])
   \<and> compressExec (snd (onCompressCalculate b s))
       = (case parsePositiveInt (compressTargetSizeKb s) of
            None \<Rightarrow> compressExec s
          | Some p \<Rightarrow> None)"
proof -
  have 1: "list_all (\<lambda>call. command_name call = preview_command k
                      \<and> take 8 (command_name call) \<noteq> ''execute_'')
       (preview_call k c @ fst (previewCurrentTab b c k s) @ fst (previewForm b k s))"
    using preview_call_names[of k c] preview_call_names[of k s]
    by (simp add: previewCurrentTab_calls previewForm_calls)
  have 2: "k \<in> set operation_tabs \<longrightarrow> length (preview_call k c) = 1"
    by (cases k) (simp_all add: operation_tabs_def)
  have 3: "map command_name (fst (onCompressCalculate b s))
       = (case parsePositiveInt (compressTargetSizeKb s) of
            None \<Rightarrow> []
          | Some p \<Rightarrow> [''preview_compress''])"
    by (simp add: calls_onCompressCalculate split: option.splits)
  from 1 2 3 previewCurrentTab_calls[of b c k s] previewForm_calls[of b k s]
    previewCurrentTab_exec[of k b c s] previewForm_exec[of k b s]
    previewCurrentTab_frame[of _ k b c s] previewForm_frame[of _ k b s]
    previewCurrentTab_silent[of k c b s] calculate_exec[of b s]
  show ?thesis by blast
qed


text \<open>
  The forms after the session that fills them in, the function with the values of that
  render, and the function with the values of the first render, which are the ones it
  gets from the drop listener.
\<close>

lemma filled_inputs:
  "renameFiles filled = [''C:/in/a.jpg'']"
  "deleteFiles filled = [''C:/in'']"
  "parseExts (deleteExtensions filled) = [''jpg'']"
  "compressFiles filled = [''C:/in/a.jpg'']"
  "trim (flattenInputDir filled) = ''C:/in''"
  "exifOffsetFiles filled = [''C:/in/a.jpg'']"
  "totalOffsetSeconds filled = 32400"
  "metadataStripFiles filled = [''C:/in/a.jpg'']"
  by (simp_all add: filled_def filling_def start_def initial_state_def example_backend_def run_def await_def addToast_def Let_def onDeleteExecute_def deleteExecuteAction_def onCompressExecute_def compressExecuteAction_def onExifOffsetExecute_def exifOffsetExecuteAction_def onMetadataStripExecute_def metadataStripExecuteAction_def onExifOffsetHoursChange_def parseInt_def parseInt10_def or_number_def is_digit_def digits_value_def deleteFiles_def compressFiles_def exifOffsetFiles_def metadataStripFiles_def renameFiles_def parsePaths_def parseExts_def ext_sep_def ext_sep_char_def toLowerCase_def lower_unit_def is_upper_def trim_def truthy_def js_whitespace_def totalOffsetSeconds_def)

lemma filled_results:
  "list_all (\<lambda>k. storedExec k filled \<noteq> None) [TabDelete, TabCompress, TabExifOffset, TabMetadataStrip]"
  by (simp add: filled_def filling_def start_def initial_state_def example_backend_def run_def await_def addToast_def Let_def onDeleteExecute_def deleteExecuteAction_def onCompressExecute_def compressExecuteAction_def onExifOffsetExecute_def exifOffsetExecuteAction_def onMetadataStripExecute_def metadataStripExecuteAction_def onExifOffsetHoursChange_def parseInt_def parseInt10_def or_number_def is_digit_def digits_value_def deleteFiles_def compressFiles_def exifOffsetFiles_def metadataStripFiles_def renameFiles_def parsePaths_def parseExts_def ext_sep_def ext_sep_char_def toLowerCase_def lower_unit_def is_upper_def trim_def truthy_def js_whitespace_def totalOffsetSeconds_def)

lemma start_inputs: "list_all (\<lambda>k. \<not> has_input k start) operation_tabs"
  by (simp add: operation_tabs_def start_def initial_state_def renameFiles_def deleteFiles_def
      compressFiles_def exifOffsetFiles_def metadataStripFiles_def parsePaths_def trim_def truthy_def)

lemma calculate_example_target: "parsePositiveInt (compressTargetSizeKb calculate_example) = Some 5"
  by (simp add: calculate_example_def parsePositiveInt_def parseInt10_def trim_def js_whitespace_def
      is_digit_def digits_value_def isFinite_def)

theorem preview_invokes_preview_only_witness:
  "list_all (\<lambda>k. form_ready k filled
               \<and> map command_name (fst (previewForm example_backend k filled)) = [preview_command k]
               \<and> storedExec k (snd (previewForm example_backend k filled)) = None) operation_tabs
   \<and> list_all (\<lambda>k. storedExec k filled \<noteq> None) [TabDelete, TabCompress, TabExifOffset, TabMetadataStrip]
   \<and> list_all (\<lambda>k. has_input k filled
               \<and> map command_name (fst (previewCurrentTab example_backend filled k filled))
                   = [preview_command k]
               \<and> storedExec k (fst (snd (previewCurrentTab example_backend filled k filled))) = None)
       operation_tabs
   \<and> list_all (\<lambda>k. \<not> has_input k start
               \<and> previewCurrentTab example_backend start k filled = ([], filled, None)) operation_tabs
   \<and> storedExec TabDelete (snd (previewForm example_backend TabCompress filled))
       = storedExec TabDelete filled
   \<and> map command_name (fst (onCompressCalculate example_backend calculate_example))
       = [''preview_compress'']"
proof -
  have ready: "form_ready k filled" "has_input k filled" if "k \<in> set operation_tabs" for k
    using that by (auto simp: operation_tabs_def filled_inputs)
  have names: "map command_name (preview_call k filled) = [preview_command k]"
    if "k \<in> set operation_tabs" for k
    using that by (auto simp: operation_tabs_def)
  have form: "form_ready k filled
      \<and> map command_name (fst (previewForm example_backend k filled)) = [preview_command k]
      \<and> storedExec k (snd (previewForm example_backend k filled)) = None"
    and current: "has_input k filled
      \<and> map command_name (fst (previewCurrentTab example_backend filled k filled)) = [preview_command k]
      \<and> storedExec k (fst (snd (previewCurrentTab example_backend filled k filled))) = None"
    if "k \<in> set operation_tabs" for k
    using preview_invokes_preview_only[of example_backend filled k filled] ready[OF that] names[OF that]
    by simp_all
  have first: "\<not> has_input k start
      \<and> previewCurrentTab example_backend start k filled = ([], filled, None)"
    if "k \<in> set operation_tabs" for k
    using preview_invokes_preview_only[of example_backend start k filled] start_inputs that
    by (simp add: list_all_iff)
  have frame: "storedExec TabDelete (snd (previewForm example_backend TabCompress filled))
       = storedExec TabDelete filled"
    using preview_invokes_preview_only[of example_backend filled TabCompress filled] by blast
  have calc: "map command_name (fst (onCompressCalculate example_backend calculate_example))
       = [''preview_compress'']"
    using preview_invokes_preview_only[of example_backend calculate_example TabCompress calculate_example]
      calculate_example_target by simp
  from form current first frame calc filled_results show ?thesis by (simp add: list_all_iff)
qed


section \<open>The estimate of the compressed size\<close>

text \<open>
  C2. With a collected source total \<open>S\<close>, no sampled estimate, resize percent \<open>r\<close> and a
  quality \<open>q\<close> that is not negative, the estimated total of \<^verbatim>\<open>compressSizeSummary\<close> is
  \<open>S * (r / 100)\<^sup>2 * (q / 100) powr 1.25\<close>, and the summary is not marked as sampled.
  The numbers are reals: the equation is that of the formula, not of its rounding in
  doubles.
\<close>

theorem compressSizeSummary_heuristic:
  assumes "compressSourceInfo c = Some info" "compressEstimateResult c = None"
    "0 \<le> compressQuality c"
  shows "map_option totalEstimated (compressSizeSummary c) =
     Some (Some (real (totalSize info) * (real_of_int (compressResizePercent c) / 100) ^ 2
                 * (real_of_int (compressQuality c) / 100) powr 1.25))
   \<and> map_option isSampled (compressSizeSummary c) = Some False"
  using assms
  by (simp add: compressSizeSummary_def Math_pow_def Let_def power2_eq_square)

theorem compressSizeSummary_heuristic_witness:
  "compressSourceInfo compress_example = Some \<lparr>fileCount_i = 10, totalSize = 1000\<rparr>
   \<and> compressEstimateResult compress_example = None
   \<and> 0 \<le> compressQuality compress_example
   \<and> map_option totalEstimated (compressSizeSummary compress_example) = Some (Some 250)"
proof -
  have a: "compressSourceInfo compress_example = Some \<lparr>fileCount_i = 10, totalSize = 1000\<rparr>"
    by (simp add: compress_example_def)
  have b: "compressEstimateResult compress_example = None"
    by (simp add: compress_example_def start_def initial_state_def)
  have c: "0 \<le> compressQuality compress_example"
    by (simp add: compress_example_def)
  have r: "compressResizePercent compress_example = 50" "compressQuality compress_example = 100"
    by (simp_all add: compress_example_def)
  from compressSizeSummary_heuristic[OF a b c] a b c r show ?thesis
    by (simp add: power2_eq_square)
qed


section \<open>The preset of the metadata strip tab\<close>

text \<open>
  C3. Selecting the preset for publishing on social networks stores the mask with gps,
  cameraLens, comments and thumbnail set and the other six categories unset; the preview
  requests and the execute request built from that state carry this mask, and it is the
  mask of the first render too.
\<close>

theorem sns_preset_mask:
  "metadataStripCategories (onMetadataStripPresetChange SnsPublish s)
     = \<lparr>gps = True, cameraLens = True, software = False, authorCopyright = False,
        comments = True, thumbnail = True, iptc = False, xmp = False,
        shootingSettings = False, captureDateTime = False\<rparr>
   \<and> metadataStripPreset (onMetadataStripPresetChange SnsPublish s) = SnsPublish
   \<and> categories_m (metadataStripRequest (onMetadataStripPresetChange SnsPublish s))
     = \<lparr>gps = True, cameraLens = True, software = False, authorCopyright = False,
        comments = True, thumbnail = True, iptc = False, xmp = False,
        shootingSettings = False, captureDateTime = False\<rparr>
   \<and> fst (onMetadataStripSubmit b (onMetadataStripPresetChange SnsPublish s))
     = (if metadataStripFiles s = [] then []
        else [Preview_metadata_strip (metadataStripRequest (onMetadataStripPresetChange SnsPublish s))])
   \<and> fst (onMetadataStripExecute b (onMetadataStripPresetChange SnsPublish s))
     = (if metadataStripFiles s = [] then []
        else [Execute_metadata_strip (metadataStripRequest (onMetadataStripPresetChange SnsPublish s))])
   \<and> fst (previewCurrentTab b (onMetadataStripPresetChange SnsPublish s) TabMetadataStrip s')
     = (if metadataStripFiles s = [] then []
        else [Preview_metadata_strip (metadataStripRequest (onMetadataStripPresetChange SnsPublish s))])
   \<and> metadataStripCategories (initial_state n)
     = \<lparr>gps = True, cameraLens = True, software = False, authorCopyright = False,
        comments = True, thumbnail = True, iptc = False, xmp = False,
        shootingSettings = False, captureDateTime = False\<rparr>"
  by (simp add: calls_onMetadataStripSubmit calls_onMetadataStripExecute metadataStripRequest_def
      onMetadataStripPresetChange_def metadataStripFiles_def initial_state_def SNS_CATEGORIES_def
      fst_await)


section \<open>Guards of the delete tab\<close>

lemma delete_ok_preview: "list_all delete_request_ok (fst (previewCurrentTab b c0 k s1))"
  unfolding calls_previewCurrentTab by (cases k) (simp_all add: deleteRequest_def)

lemma delete_ok_import: "list_all delete_request_ok (fst (onImportClick b s))"
  by (simp add: onImportClick_def fst_run importAction_def calls_importNow calls_refreshImportConflicts
      refreshImportConflicts_def split: prod.splits sum.splits)

lemma delete_ok_handle: "list_all delete_request_ok (fst (handle b c0 e s))"
proof (cases e)
  case (DragDrop paths)
  have "list_all delete_request_ok (fst (onDragDrop b c0 paths s))"
    by (rule calls_onDragDrop) (auto simp: delete_ok_preview elim: is_directory_query.elims)
  with DragDrop show ?thesis by simp
next
  case ImportClick
  then show ?thesis by (simp add: delete_ok_import)
qed (simp_all add: calls_onRenameSubmit calls_onFlattenSubmit calls_onDeleteSubmit calls_onDeleteExecute calls_onCompressSubmit
      calls_onCompressExecute calls_onCompressCalculate calls_onExifOffsetSubmit calls_onExifOffsetExecute
      calls_onMetadataStripSubmit calls_onMetadataStripExecute calls_onConflictCheck deleteRequest_def
      split: option.splits)


text \<open>
  C5. When the path list or the parsed extension list is empty, the preview form and the
  execute button of the delete tab invoke no command and show an error toast. In every
  session, every delete request that is invoked carries a non-empty extension list and
  a non-empty path list.
\<close>

theorem delete_needs_paths_and_extensions:
  "(deleteFiles s = [] \<or> parseExts (deleteExtensions s) = [] \<longrightarrow>
      fst (onDeleteSubmit b s) = [] \<and> fst (onDeleteExecute b s) = []
    \<and> toasts (snd (onDeleteSubmit b s)) =
        toasts s @ [error_toast s (if deleteFiles s = [] then InputPathsRequired
                                    else DeleteExtensionsRequired)]
    \<and> toasts (snd (onDeleteExecute b s)) =
        toasts s @ [error_toast s (if deleteFiles s = [] then InputPathsRequired
                                    else DeleteExtensionsRequired)])
   \<and> list_all delete_request_ok (fst (handle_all c0 evs s))"
proof -
  have 1: "list_all delete_request_ok (fst (handle_all c0 evs s))"
    by (rule calls_handle_all) (rule delete_ok_handle)
  have 2: "toasts (snd (onDeleteSubmit b s)) =
        toasts s @ [error_toast s (if deleteFiles s = [] then InputPathsRequired
                                    else DeleteExtensionsRequired)]"
    if "deleteFiles s = [] \<or> parseExts (deleteExtensions s) = []"
    unfolding onDeleteSubmit_def using that
    by (intro toasts_run_error) (auto simp: deleteSubmitAction_def)
  have 3: "toasts (snd (onDeleteExecute b s)) =
        toasts s @ [error_toast s (if deleteFiles s = [] then InputPathsRequired
                                    else DeleteExtensionsRequired)]"
    if "deleteFiles s = [] \<or> parseExts (deleteExtensions s) = []"
    unfolding onDeleteExecute_def using that
    by (intro toasts_run_error) (auto simp: deleteExecuteAction_def)
  from 1 2 3 show ?thesis by (simp add: calls_onDeleteSubmit calls_onDeleteExecute)
qed

theorem delete_needs_paths_and_extensions_witness:
  "deleteFiles delete_example = [''C:/in'']
   \<and> parseExts (deleteExtensions delete_example) = []
   \<and> fst (onDeleteSubmit example_backend delete_example) = []
   \<and> fst (onDeleteExecute example_backend delete_example) = []
   \<and> toasts (snd (onDeleteExecute example_backend delete_example))
       = [error_toast delete_example DeleteExtensionsRequired]"
proof -
  have f: "deleteFiles delete_example = [''C:/in'']"
    by (simp add: delete_example_def deleteFiles_def parsePaths_def trim_def truthy_def
        js_whitespace_def)
  have x: "parseExts (deleteExtensions delete_example) = []"
    by (simp add: delete_example_def parseExts_def ext_sep_def ext_sep_char_def trim_def truthy_def
        js_whitespace_def toLowerCase_def)
  have tz: "toasts delete_example = []"
    by (simp add: delete_example_def start_def initial_state_def)
  from delete_needs_paths_and_extensions[of delete_example example_backend start "[]"] f x tz
  show ?thesis by simp
qed


section \<open>Import of settings in merge mode\<close>

lemma hasImportConflicts_iff:
  "hasImportConflicts (Some p) \<longleftrightarrow>
     deletePatternNames p \<noteq> [] \<or> renameTemplateNames p \<noteq> [] \<or> outputDirectoryKeys p \<noteq> []
     \<or> themeConflict p"
  by (simp add: hasImportConflicts_def)


text \<open>Without an import path the button throws at once.\<close>

lemma import_blank_path:
  "trim (importPath s) = [] \<Longrightarrow>
   fst (onImportClick b s) = []
   \<and> toasts (snd (onImportClick b s)) = toasts s @ [error_toast s ImportPathRequired]"
  by (simp add: onImportClick_def run_def importAction_def addToast_def error_toast_def Let_def)


text \<open>
  C6. In merge mode, with no conflict preview stored and an import path given, the
  import button first invokes \<^verbatim>\<open>preview_import_conflicts\<close>. If the preview it gets has a
  conflict, this is the only command: the handler stores the preview, shows an error and
  leaves the settings as they are; if it has none, \<^verbatim>\<open>import_settings\<close> follows. A preview
  has a conflict exactly when one of its three lists is non-empty or the theme conflicts.
\<close>

theorem import_without_check_fetches_conflicts:
  assumes "importMode s = ModeMerge" "importConflictPreview s = None" "trim (importPath s) \<noteq> []"
  shows "fst (onImportClick b s) \<noteq> []
     \<and> hd (fst (onImportClick b s)) = Preview_import_conflicts (trim (importPath s))
     \<and> (\<forall>p. preview_import_conflicts b (trim (importPath s)) = Inr p \<and> hasImportConflicts (Some p) \<longrightarrow>
          fst (onImportClick b s) = [Preview_import_conflicts (trim (importPath s))]
          \<and> toasts (snd (onImportClick b s)) = toasts s @ [error_toast s ImportConflictsFound]
          \<and> settings (snd (onImportClick b s)) = settings s
          \<and> importConflictPreview (snd (onImportClick b s)) = Some p)
     \<and> (\<forall>p. preview_import_conflicts b (trim (importPath s)) = Inr p \<and> \<not> hasImportConflicts (Some p) \<longrightarrow>
          fst (onImportClick b s) =
            [Preview_import_conflicts (trim (importPath s)),
             Import_settings (trim (importPath s)) ModeMerge (importConflictPolicy s)])
     \<and> (\<forall>p. hasImportConflicts (Some p) \<longleftrightarrow>
          deletePatternNames p \<noteq> [] \<or> renameTemplateNames p \<noteq> [] \<or> outputDirectoryKeys p \<noteq> []
          \<or> themeConflict p)
     \<and> \<not> hasImportConflicts None"
proof -
  let ?path = "trim (importPath s)"
  have 1: "fst (onImportClick b s) \<noteq> [] \<and> hd (fst (onImportClick b s)) = Preview_import_conflicts ?path"
    using assms
    by (auto simp: onImportClick_def fst_run importAction_def refreshImportConflicts_def calls_importNow
        split: sum.splits)
  have 2: "fst (onImportClick b s) = [Preview_import_conflicts ?path]
          \<and> toasts (snd (onImportClick b s)) = toasts s @ [error_toast s ImportConflictsFound]
          \<and> settings (snd (onImportClick b s)) = settings s
          \<and> importConflictPreview (snd (onImportClick b s)) = Some p"
    if "preview_import_conflicts b ?path = Inr p" "hasImportConflicts (Some p)" for p
    using assms that
    by (simp add: onImportClick_def run_def importAction_def refreshImportConflicts_def
        addToast_def error_toast_def Let_def)
  have 3: "fst (onImportClick b s) =
            [Preview_import_conflicts ?path, Import_settings ?path ModeMerge (importConflictPolicy s)]"
    if "preview_import_conflicts b ?path = Inr p" "\<not> hasImportConflicts (Some p)" for p
    using assms that
    by (simp add: onImportClick_def fst_run importAction_def refreshImportConflicts_def calls_importNow)
  have 4: "\<not> hasImportConflicts None" by (simp add: hasImportConflicts_def)
  from 1 2 3 4 hasImportConflicts_iff show ?thesis by blast
qed

theorem import_without_check_fetches_conflicts_witness:
  "importMode import_example = ModeMerge
   \<and> importConflictPreview import_example = None
   \<and> trim (importPath import_example) = ''C:/backup/settings.json''
   \<and> fst (onImportClick example_backend import_example)
       = [Preview_import_conflicts ''C:/backup/settings.json'']
   \<and> toasts (snd (onImportClick example_backend import_example))
       = [error_toast import_example ImportConflictsFound]"
proof -
  have m: "importMode import_example = ModeMerge"
    by (simp add: import_example_def start_def initial_state_def)
  have n: "importConflictPreview import_example = None"
    by (simp add: import_example_def start_def initial_state_def)
  have p: "trim (importPath import_example) = ''C:/backup/settings.json''"
    by (simp add: import_example_def start_def initial_state_def trim_def js_whitespace_def)
  then have q: "trim (importPath import_example) \<noteq> []" by simp
  have tz: "toasts import_example = []"
    by (simp add: import_example_def start_def initial_state_def)
  have r: "preview_import_conflicts example_backend (trim (importPath import_example))
             = Inr \<lparr>deletePatternNames = [''temps''], renameTemplateNames = [],
                     outputDirectoryKeys = [], themeConflict = False\<rparr>"
    by (simp add: example_backend_def)
  have c: "hasImportConflicts (Some \<lparr>deletePatternNames = [''temps''], renameTemplateNames = [],
                     outputDirectoryKeys = [], themeConflict = False\<rparr>)"
    by (simp add: hasImportConflicts_def)
  from import_without_check_fetches_conflicts[OF m n q, of example_backend] r c
  have "fst (onImportClick example_backend import_example)
          = [Preview_import_conflicts (trim (importPath import_example))]
        \<and> toasts (snd (onImportClick example_backend import_example))
          = toasts import_example @ [error_toast import_example ImportConflictsFound]"
    by blast
  with m n p tz show ?thesis by simp
qed


section \<open>Range of resize percent and quality\<close>

lemma keep_addToast:
  "compressResizePercent (addToast t m s) = compressResizePercent s"
  "compressQuality (addToast t m s) = compressQuality s"
  by (simp_all add: addToast_def Let_def)

lemma keep_run:
  "compressResizePercent (snd (run a l s))
     = compressResizePercent (fst (snd (a (s\<lparr>isBusy := True, busyLabel := l\<rparr>))))"
  "compressQuality (snd (run a l s))
     = compressQuality (fst (snd (a (s\<lparr>isBusy := True, busyLabel := l\<rparr>))))"
  by (simp_all add: run_def keep_addToast split: prod.splits option.splits)

lemma keep_previewCurrentTab:
  "compressResizePercent (fst (snd (previewCurrentTab b c k s))) = compressResizePercent s
   \<and> compressQuality (fst (snd (previewCurrentTab b c k s))) = compressQuality s"
  by (cases k) (auto simp: await_def keep_addToast split: sum.splits)

lemma keep_firstDirectory:
  "compressResizePercent (fst (snd (firstDirectory b ps s))) = compressResizePercent s
   \<and> compressQuality (fst (snd (firstDirectory b ps s))) = compressQuality s"
  by (induction ps) (auto simp: keep_addToast split: sum.splits prod.splits)

lemma keep_applyPathsToCurrentTab:
  "compressResizePercent (fst (snd (applyPathsToCurrentTab b incoming s))) = compressResizePercent s
   \<and> compressQuality (fst (snd (applyPathsToCurrentTab b incoming s))) = compressQuality s"
  by (simp add: applyPathsToCurrentTab_def Let_def keep_addToast keep_firstDirectory split: TabKey.splits)

lemma keep_onDragDrop:
  "compressResizePercent (snd (onDragDrop b c0 paths s)) = compressResizePercent s
   \<and> compressQuality (snd (onDragDrop b c0 paths s)) = compressQuality s"
proof -
  let ?s = "s\<lparr>isDragOver := False, isBusy := True, busyLabel := None\<rparr>"
  obtain calls1 s1 t where a: "applyPathsToCurrentTab b paths ?s = (calls1, s1, t)"
    by (cases "applyPathsToCurrentTab b paths ?s") auto
  from keep_applyPathsToCurrentTab[of b paths ?s] a
  have s1: "compressResizePercent s1 = compressResizePercent s \<and> compressQuality s1 = compressQuality s"
    by simp
  show ?thesis
  proof (cases t)
    case None
    obtain calls2 s2 t2 where p: "previewCurrentTab b c0 (tab ?s) s1 = (calls2, s2, t2)"
      by (cases "previewCurrentTab b c0 (tab ?s) s1") auto
    from keep_previewCurrentTab[of b c0 "tab ?s" s1] p s1
    have "compressResizePercent s2 = compressResizePercent s \<and> compressQuality s2 = compressQuality s"
      by simp
    with a None p show ?thesis
      by (simp add: onDragDrop_def keep_run dropAction_def Let_def)
  next
    case (Some e)
    with s1 a show ?thesis
      by (simp add: onDragDrop_def keep_run dropAction_def Let_def)
  qed
qed

lemma keep_onImportClick:
  "compressResizePercent (snd (onImportClick b s)) = compressResizePercent s
   \<and> compressQuality (snd (onImportClick b s)) = compressQuality s"
  by (auto simp: onImportClick_def keep_run importAction_def importNow_def refreshImportConflicts_def
      applySettingsToInputs_def Let_def split: sum.splits)

lemma keep_handle:
  assumes "e \<noteq> CompressCalculate" "\<And>v. e \<noteq> ResizePercentChange v" "\<And>v. e \<noteq> QualityChange v"
  shows "compressResizePercent (snd (handle b c0 e s)) = compressResizePercent s
   \<and> compressQuality (snd (handle b c0 e s)) = compressQuality s"
proof (cases e)
  case (DragDrop paths)
  then show ?thesis by (simp add: keep_onDragDrop)
next
  case ImportClick
  then show ?thesis by (simp add: keep_onImportClick)
qed (use assms in \<open>auto simp: keep_run keep_addToast await_def
      onRenameSubmit_def renameSubmitAction_def onFlattenSubmit_def flattenSubmitAction_def
      onDeleteSubmit_def deleteSubmitAction_def onDeleteExecute_def deleteExecuteAction_def
      onCompressSubmit_def compressSubmitAction_def onCompressExecute_def compressExecuteAction_def
      onExifOffsetSubmit_def exifOffsetSubmitAction_def onExifOffsetExecute_def exifOffsetExecuteAction_def
      onMetadataStripSubmit_def metadataStripSubmitAction_def onMetadataStripExecute_def
      metadataStripExecuteAction_def onMetadataStripPresetChange_def Let_def
      onConflictCheck_def refreshImportConflicts_def onImportPathChange_def onImportModeChange_def
      onExifOffsetDaysChange_def onExifOffsetHoursChange_def onExifOffsetMinutesChange_def
      onExifOffsetSecondsChange_def onCategoryChange_def
      split: sum.splits\<close>)

lemma percent_clamp: "percent (max 1 (min 100 x))"
  by (simp add: percent_def)

lemma calculate_in_range:
  assumes "compress_in_range s" "effective_in_range b"
  shows "compress_in_range (snd (onCompressCalculate b s))"
  using assms
  by (auto simp: compress_in_range_def effective_in_range_def onCompressCalculate_def keep_run
      compressCalculateAction_def await_def keep_addToast Let_def split: option.splits sum.splits)

lemma handle_in_range:
  assumes "compress_in_range s" "e = CompressCalculate \<longrightarrow> effective_in_range b"
  shows "compress_in_range (snd (handle b c0 e s))"
proof -
  consider "e = CompressCalculate" | v where "e = ResizePercentChange v" | v where "e = QualityChange v"
    | "e \<noteq> CompressCalculate" "\<And>v. e \<noteq> ResizePercentChange v" "\<And>v. e \<noteq> QualityChange v"
    by blast
  then show ?thesis
  proof cases
    case 1
    with assms show ?thesis by (simp add: calculate_in_range)
  next
    case 2
    with assms(1) show ?thesis
      by (simp add: compress_in_range_def onResizePercentChange_def percent_clamp)
  next
    case 3
    with assms(1) show ?thesis
      by (simp add: compress_in_range_def onQualityChange_def percent_clamp)
  next
    case 4
    from keep_handle[OF 4, of b c0 s] assms(1) show ?thesis
      by (simp add: compress_in_range_def)
  qed
qed

lemma compress_ok_preview:
  "compress_in_range c0 \<Longrightarrow> list_all compress_request_ok (fst (previewCurrentTab b c0 k s1))"
  unfolding calls_previewCurrentTab
  by (cases k) (simp_all add: compressRequest_def compress_in_range_def)

lemma compress_ok_import: "list_all compress_request_ok (fst (onImportClick b s))"
  by (simp add: onImportClick_def fst_run importAction_def calls_importNow calls_refreshImportConflicts
      refreshImportConflicts_def split: prod.splits sum.splits)

lemma compress_ok_handle:
  assumes "compress_in_range s" "compress_in_range c0"
  shows "list_all compress_request_ok (fst (handle b c0 e s))"
proof (cases e)
  case (DragDrop paths)
  have "list_all compress_request_ok (fst (onDragDrop b c0 paths s))"
    by (rule calls_onDragDrop) (auto simp: compress_ok_preview assms elim: is_directory_query.elims)
  with DragDrop show ?thesis by simp
next
  case ImportClick
  then show ?thesis by (simp add: compress_ok_import)
qed (use assms in \<open>simp_all add: calls_onRenameSubmit calls_onFlattenSubmit calls_onDeleteSubmit calls_onDeleteExecute calls_onCompressSubmit
      calls_onCompressExecute calls_onCompressCalculate calls_onExifOffsetSubmit calls_onExifOffsetExecute
      calls_onMetadataStripSubmit calls_onMetadataStripExecute calls_onConflictCheck compressRequest_def
      compress_in_range_def split: option.splits\<close>)

lemma session_in_range:
  "compress_in_range s \<Longrightarrow> compress_in_range c0 \<Longrightarrow> calculations_in_range evs \<Longrightarrow>
   compress_in_range (snd (handle_all c0 evs s))
   \<and> list_all compress_request_ok (fst (handle_all c0 evs s))"
proof (induction evs arbitrary: s)
  case Nil
  then show ?case by simp
next
  case (Cons be evs)
  obtain b e where be: "be = (b, e)" by (cases be)
  obtain calls s1 where h: "handle b c0 e s = (calls, s1)" by (cases "handle b c0 e s")
  obtain later s2 where r: "handle_all c0 evs s1 = (later, s2)" by (cases "handle_all c0 evs s1")
  from Cons.prems be have c: "e = CompressCalculate \<longrightarrow> effective_in_range b"
    and rest: "calculations_in_range evs" by simp_all
  from handle_in_range[OF Cons.prems(1) c, of c0] h have s1: "compress_in_range s1" by simp
  from compress_ok_handle[OF Cons.prems(1,2), of b e] h have ok: "list_all compress_request_ok calls"
    by simp
  from Cons.IH[OF s1 Cons.prems(2) rest] r
  have "compress_in_range s2 \<and> list_all compress_request_ok later" by simp
  with ok be h r show ?case by simp
qed

lemma clamp_value:
  "max 1 (min 100 (or_number x 1)) =
     (case x of None \<Rightarrow> 1 | Some p \<Rightarrow> if p < 1 then 1 else if 100 < p then 100 else (p :: int))"
  by (simp add: or_number_def split: option.splits)

lemma calculate_stores:
  "compressResizePercent (snd (onCompressCalculate b s)) =
     (case calculated b s of
        None \<Rightarrow> compressResizePercent s
      | Some r \<Rightarrow> Math_round (effectiveResizePercent r))
   \<and> compressQuality (snd (onCompressCalculate b s)) =
     (case calculated b s of None \<Rightarrow> compressQuality s | Some r \<Rightarrow> effectiveQuality r)"
  by (simp add: onCompressCalculate_def keep_run compressCalculateAction_def await_def keep_addToast
      calculated_def Let_def split: option.splits sum.splits)


text \<open>
  C8, as amended. The first render has both values within 1 to 100. A slider handler
  stores the number it parses, 1 in place of a number below 1 and 100 in place of a
  number above 100, and 1 when the text is not a number; it leaves the other value as it
  is. The calculate button stores the rounded effective resize percent and the effective
  quality of the engine's answer as they are, and leaves both values when there is no
  answer. In a session whose target-size calculations get effective values within 1 to
  100 from the engine (the resize after rounding), the values stay within 1 to 100 and
  every compress request carries values within 1 to 100.
\<close>

theorem compress_percent_range:
  "compress_in_range (initial_state n)
   \<and> compressResizePercent (onResizePercentChange v s) =
       (case parseInt10 v of
          None \<Rightarrow> 1
        | Some p \<Rightarrow> if p < 1 then 1 else if 100 < p then 100 else p)
   \<and> compressQuality (onQualityChange v s) =
       (case parseInt10 v of
          None \<Rightarrow> 1
        | Some p \<Rightarrow> if p < 1 then 1 else if 100 < p then 100 else p)
   \<and> compressQuality (onResizePercentChange v s) = compressQuality s
   \<and> compressResizePercent (onQualityChange v s) = compressResizePercent s
   \<and> percent (compressResizePercent (onResizePercentChange v s))
   \<and> percent (compressQuality (onQualityChange v s))
   \<and> (parseInt10 v = None \<longrightarrow>
        compressResizePercent (onResizePercentChange v s) = 1
        \<and> compressQuality (onQualityChange v s) = 1)
   \<and> compressResizePercent (snd (onCompressCalculate b s)) =
       (case calculated b s of
          None \<Rightarrow> compressResizePercent s
        | Some r \<Rightarrow> Math_round (effectiveResizePercent r))
   \<and> compressQuality (snd (onCompressCalculate b s)) =
       (case calculated b s of None \<Rightarrow> compressQuality s | Some r \<Rightarrow> effectiveQuality r)
   \<and> (compress_in_range s \<and> compress_in_range c0 \<and> calculations_in_range evs \<longrightarrow>
        compress_in_range (snd (handle_all c0 evs s))
        \<and> list_all compress_request_ok (fst (handle_all c0 evs s)))"
proof -
  have 1: "compress_in_range (initial_state n)"
    by (simp add: compress_in_range_def percent_def initial_state_def)
  have 2: "percent (compressResizePercent (onResizePercentChange v s))"
    by (simp add: onResizePercentChange_def percent_clamp)
  have 3: "percent (compressQuality (onQualityChange v s))"
    by (simp add: onQualityChange_def percent_clamp)
  have 4: "parseInt10 v = None \<longrightarrow>
        compressResizePercent (onResizePercentChange v s) = 1
        \<and> compressQuality (onQualityChange v s) = 1"
    by (simp add: onResizePercentChange_def onQualityChange_def or_number_def)
  have 5: "compressResizePercent (onResizePercentChange v s) =
       (case parseInt10 v of
          None \<Rightarrow> 1
        | Some p \<Rightarrow> if p < 1 then 1 else if 100 < p then 100 else p)"
    by (simp add: onResizePercentChange_def clamp_value)
  have 6: "compressQuality (onQualityChange v s) =
       (case parseInt10 v of
          None \<Rightarrow> 1
        | Some p \<Rightarrow> if p < 1 then 1 else if 100 < p then 100 else p)"
    by (simp add: onQualityChange_def clamp_value)
  have 7: "compressQuality (onResizePercentChange v s) = compressQuality s"
    "compressResizePercent (onQualityChange v s) = compressResizePercent s"
    by (simp_all add: onResizePercentChange_def onQualityChange_def)
  from 1 2 3 4 5 6 7 calculate_stores[of b s] session_in_range[of s c0 evs] show ?thesis by blast
qed

lemma example_effective: "effective_in_range example_backend"
  by (simp add: effective_in_range_def example_backend_def percent_def Math_round_def)

theorem compress_percent_range_witness:
  "compress_in_range start
   \<and> calculations_in_range
       [(example_backend, EditCompressPaths ''C:/in/a.jpg''), (example_backend, QualityChange ''250''),
        (example_backend, EditCompressTargetSize ''5''), (example_backend, CompressCalculate),
        (example_backend, ResizePercentChange ''x''), (example_backend, CompressSubmit)]
   \<and> compress_in_range
       (snd (handle_all start
          [(example_backend, EditCompressPaths ''C:/in/a.jpg''), (example_backend, QualityChange ''250''),
           (example_backend, EditCompressTargetSize ''5''), (example_backend, CompressCalculate),
           (example_backend, ResizePercentChange ''x''), (example_backend, CompressSubmit)] start))
   \<and> list_all compress_request_ok
       (fst (handle_all start
          [(example_backend, EditCompressPaths ''C:/in/a.jpg''), (example_backend, QualityChange ''250''),
           (example_backend, EditCompressTargetSize ''5''), (example_backend, CompressCalculate),
           (example_backend, ResizePercentChange ''x''), (example_backend, CompressSubmit)] start))
   \<and> parseInt10 ''x'' = None
   \<and> compressResizePercent (onResizePercentChange ''x'' start) = 1
   \<and> parseInt10 ''250'' = Some 250
   \<and> compressQuality (onQualityChange ''250'' start) = 100
   \<and> parseInt10 ''37'' = Some 37
   \<and> compressResizePercent (onResizePercentChange ''37'' calculate_example) = 37
   \<and> calculate_enabled calculate_example
   \<and> map_option effectiveResizePercent (calculated example_backend calculate_example) = Some (75 / 2)
   \<and> compressResizePercent (snd (onCompressCalculate example_backend calculate_example)) = 38
   \<and> compressQuality (snd (onCompressCalculate example_backend calculate_example)) = 60"
proof -
  let ?evs = "[(example_backend, EditCompressPaths ''C:/in/a.jpg''), (example_backend, QualityChange ''250''),
        (example_backend, EditCompressTargetSize ''5''), (example_backend, CompressCalculate),
        (example_backend, ResizePercentChange ''x''), (example_backend, CompressSubmit)]"
  note t = compress_percent_range[of "''default''" "''x''" start example_backend start ?evs]
  note u = compress_percent_range[of "''default''" "''250''" start example_backend start ?evs]
  note w = compress_percent_range[of "''default''" "''37''" calculate_example example_backend start ?evs]
  have a: "compress_in_range start" using t by (simp add: start_def)
  have b: "calculations_in_range ?evs" by (simp add: example_effective)
  have c: "parseInt10 ''x'' = None" by (simp add: parseInt10_def js_whitespace_def is_digit_def)
  have d: "parseInt10 ''250'' = Some 250"
    by (simp add: parseInt10_def js_whitespace_def is_digit_def digits_value_def)
  have e: "parseInt10 ''37'' = Some 37"
    by (simp add: parseInt10_def js_whitespace_def is_digit_def digits_value_def)
  have f: "calculate_enabled calculate_example"
    by (simp add: calculate_enabled_def calculate_example_def start_def initial_state_def
        compressFiles_def parsePaths_def trim_def truthy_def js_whitespace_def)
  have g: "calculated example_backend calculate_example
      = Some \<lparr>total_v = 1, ready_v = 1, skipped_v = 0,
               effectiveResizePercent = 75 / 2, effectiveQuality = 60\<rparr>"
    by (simp add: calculated_def calculate_example_def start_def initial_state_def
        parsePositiveInt_def parseInt10_def trim_def js_whitespace_def is_digit_def digits_value_def
        isFinite_def example_backend_def)
  have h: "Math_round (75 / 2) = 38" by (simp add: Math_round_def)
  from t a b have 1: "compress_in_range (snd (handle_all start ?evs start))
      \<and> list_all compress_request_ok (fst (handle_all start ?evs start))" by blast
  from t c have 2: "compressResizePercent (onResizePercentChange ''x'' start) = 1" by simp
  from u d have 3: "compressQuality (onQualityChange ''250'' start) = 100" by simp
  from w e have 4: "compressResizePercent (onResizePercentChange ''37'' calculate_example) = 37"
    by simp
  from w g h have 5: "compressResizePercent (snd (onCompressCalculate example_backend calculate_example)) = 38"
    "compressQuality (snd (onCompressCalculate example_backend calculate_example)) = 60" by simp_all
  from a b c d e f g 1 2 3 4 5 show ?thesis by simp
qed


text \<open>
  The calculate button stores what the engine answers. With paths and a target size
  entered, the button can be clicked; with an engine that answers a resize of 0.4
  percent, the resize percent in the state is 0 after the click, and the preview
  request of the next click on the preview button, which can be clicked then, carries
  it.
\<close>

theorem compress_calculate_counterexample:
  "calculate_enabled
     (snd (handle_all start
        [(low_backend, EditCompressPaths ''C:/in/a.jpg''),
         (low_backend, EditCompressTargetSize ''5'')] start))
   \<and> compressResizePercent
     (snd (handle_all start
        [(low_backend, EditCompressPaths ''C:/in/a.jpg''),
         (low_backend, EditCompressTargetSize ''5''), (low_backend, CompressCalculate)] start)) = 0
   \<and> preview_enabled
     (snd (handle_all start
        [(low_backend, EditCompressPaths ''C:/in/a.jpg''),
         (low_backend, EditCompressTargetSize ''5''), (low_backend, CompressCalculate)] start))
   \<and> \<not> list_all compress_request_ok
     (fst (handle_all start
        [(low_backend, EditCompressPaths ''C:/in/a.jpg''),
         (low_backend, EditCompressTargetSize ''5''), (low_backend, CompressCalculate),
         (low_backend, CompressSubmit)] start))"
  by (simp add: start_def initial_state_def low_backend_def example_backend_def
      onCompressCalculate_def compressCalculateAction_def run_def await_def addToast_def Let_def
      parsePositiveInt_def parseInt10_def trim_def js_whitespace_def is_digit_def digits_value_def
      isFinite_def calculate_enabled_def preview_enabled_def
      Math_round_def onCompressSubmit_def compressSubmitAction_def compressFiles_def parsePaths_def
      truthy_def compressRequest_def percent_def or_null_def)


section \<open>Guards of the EXIF offset tab\<close>

lemma initial_preview_silent: "previewCurrentTab b (initial_state n) k s = ([], s, None)"
  by (cases k)
    (simp_all add: initial_state_def renameFiles_def deleteFiles_def compressFiles_def
      exifOffsetFiles_def metadataStripFiles_def parsePaths_def trim_def truthy_def)

lemma exif_ok_import: "list_all exif_request_ok (fst (onImportClick b s))"
  by (simp add: onImportClick_def fst_run importAction_def calls_importNow calls_refreshImportConflicts
      refreshImportConflicts_def split: prod.splits sum.splits)

lemma exif_ok_handle: "list_all exif_request_ok (fst (handle b (initial_state n) e s))"
proof (cases e)
  case (DragDrop paths)
  have "list_all exif_request_ok (fst (onDragDrop b (initial_state n) paths s))"
    by (rule calls_onDragDrop) (auto simp: initial_preview_silent elim: is_directory_query.elims)
  with DragDrop show ?thesis by simp
next
  case ImportClick
  then show ?thesis by (simp add: exif_ok_import)
qed (simp_all add: calls_onRenameSubmit calls_onFlattenSubmit calls_onDeleteSubmit calls_onDeleteExecute calls_onCompressSubmit
      calls_onCompressExecute calls_onCompressCalculate calls_onExifOffsetSubmit calls_onExifOffsetExecute
      calls_onMetadataStripSubmit calls_onMetadataStripExecute calls_onConflictCheck exifOffsetRequest_def
      split: option.splits)


text \<open>
  The function \<^verbatim>\<open>previewCurrentTab\<close> itself has no check of the offset: called with the
  values of a render that has paths, it sends the offset of that render, zero or not.
  Its one call site is the drop listener.
\<close>

lemma previewCurrentTab_exif_unchecked:
  "exifOffsetFiles c \<noteq> [] \<Longrightarrow>
   fst (previewCurrentTab b c TabExifOffset s) = [Preview_exif_offset (exifOffsetRequest c)]
   \<and> offsetSeconds_e (exifOffsetRequest c) = totalOffsetSeconds c"
  by (simp add: fst_await exifOffsetRequest_def)


text \<open>
  C9. The total offset is the sign times days, hours, minutes and seconds in seconds.
  When it is 0, the preview form and the execute button of the EXIF offset tab invoke no
  command and show an error toast. In every session, every EXIF offset request that is
  invoked has an offset other than 0: the drop listener previews with the values of the
  first render, where no path is entered.
\<close>

theorem exif_offset_zero_rejected:
  "totalOffsetSeconds s =
     (if exifOffsetSign s = Plus then 1 else - 1)
     * (exifOffsetDays s * 86400 + exifOffsetHours s * 3600 + exifOffsetMinutes s * 60
        + exifOffsetSeconds s)
   \<and> (totalOffsetSeconds s = 0 \<longrightarrow>
        fst (onExifOffsetSubmit b s) = [] \<and> fst (onExifOffsetExecute b s) = []
      \<and> toasts (snd (onExifOffsetSubmit b s)) =
          toasts s @ [error_toast s (if exifOffsetFiles s = [] then InputPathsRequired
                                      else OffsetRequired)]
      \<and> toasts (snd (onExifOffsetExecute b s)) =
          toasts s @ [error_toast s (if exifOffsetFiles s = [] then InputPathsRequired
                                      else OffsetRequired)])
   \<and> list_all exif_request_ok (fst (handle_all (initial_state n) evs s))"
proof -
  have 0: "totalOffsetSeconds s =
     (if exifOffsetSign s = Plus then 1 else - 1)
     * (exifOffsetDays s * 86400 + exifOffsetHours s * 3600 + exifOffsetMinutes s * 60
        + exifOffsetSeconds s)"
    by (simp add: totalOffsetSeconds_def Let_def)
  have 1: "list_all exif_request_ok (fst (handle_all (initial_state n) evs s))"
    by (rule calls_handle_all) (rule exif_ok_handle)
  have 2: "toasts (snd (onExifOffsetSubmit b s)) =
          toasts s @ [error_toast s (if exifOffsetFiles s = [] then InputPathsRequired
                                      else OffsetRequired)]"
    if "totalOffsetSeconds s = 0"
    unfolding onExifOffsetSubmit_def using that
    by (intro toasts_run_error) (auto simp: exifOffsetSubmitAction_def)
  have 3: "toasts (snd (onExifOffsetExecute b s)) =
          toasts s @ [error_toast s (if exifOffsetFiles s = [] then InputPathsRequired
                                      else OffsetRequired)]"
    if "totalOffsetSeconds s = 0"
    unfolding onExifOffsetExecute_def using that
    by (intro toasts_run_error) (auto simp: exifOffsetExecuteAction_def)
  from 0 1 2 3 show ?thesis
    by (simp only: calls_onExifOffsetSubmit calls_onExifOffsetExecute) simp
qed

lemma exif_example_files: "exifOffsetFiles exif_example = [''C:/in/a.jpg'']"
  by (simp add: exif_example_def start_def initial_state_def exifOffsetFiles_def parsePaths_def
      trim_def truthy_def js_whitespace_def)

lemma exif_example_zero: "totalOffsetSeconds exif_example = 0"
  by (simp add: exif_example_def start_def initial_state_def totalOffsetSeconds_def)

theorem exif_offset_zero_rejected_witness:
  "totalOffsetSeconds exif_example = 0
   \<and> exifOffsetFiles exif_example = [''C:/in/a.jpg'']
   \<and> fst (onExifOffsetSubmit example_backend exif_example) = []
   \<and> fst (onExifOffsetExecute example_backend exif_example) = []
   \<and> toasts (snd (onExifOffsetExecute example_backend exif_example))
       = [error_toast exif_example OffsetRequired]"
proof -
  note t = exif_offset_zero_rejected[of exif_example example_backend "''default''" "[]"]
  have tz: "toasts exif_example = []"
    by (simp add: exif_example_def start_def initial_state_def)
  from t exif_example_zero exif_example_files tz show ?thesis by simp
qed


section \<open>The timeout of the automatic save\<close>

lemma timed_run_append:
  "timed_run s (xs @ ys) =
     (case timed_run s xs of
        (c1, s1) \<Rightarrow> (case timed_run s1 ys of (c2, s2) \<Rightarrow> (c1 @ c2, s2)))"
  by (induction xs arbitrary: s) (auto split: prod.splits)

lemma timed_run_Cons:
  "timed_run s (x # ys) =
     (case timed_run s [x] of
        (c1, s1) \<Rightarrow> (case timed_run s1 ys of (c2, s2) \<Rightarrow> (c1 @ c2, s2)))"
  using timed_run_append[of s "[x]" ys] by simp

lemma clear_only_timers:
  "clearOutputSaveTimer s =
     s\<lparr>timers := filter (\<lambda>t. Some (handle_t t) \<noteq> outputSaveTimerRef s) (timers s)\<rparr>"
  by (cases "outputSaveTimerRef s") (simp_all add: clearOutputSaveTimer_def clearTimeout_def)

lemma tidy_filter:
  "tidy s \<Longrightarrow> filter (\<lambda>t. Some (handle_t t) \<noteq> outputSaveTimerRef s) (timers s) = []"
  by (auto simp: tidy_def list_all_iff filter_empty_conv)

lemma effect_loaded:
  assumes "settingsLoadedRef s" "tidy s"
  shows "outputSaveEffect s =
     s\<lparr>timers := [\<lparr>handle_t = nextHandle s, due_t = clock s + 400,
                   renameOutputDir_t = renameOutputDir (app s),
                   deleteRetreatDir_t = deleteRetreatDir (app s),
                   compressOutputDir_t = compressOutputDir (app s),
                   flattenOutputDir_t = flattenOutputDir (app s)\<rparr>],
       nextHandle := nextHandle s + 1,
       outputSaveTimerRef := Some (nextHandle s),
       cleanup := True\<rparr>"
  using assms tidy_filter[OF assms(2)]
  by (simp add: outputSaveEffect_def Let_def clear_only_timers)

lemma effect_unloaded:
  assumes "\<not> settingsLoadedRef s"
  shows "outputSaveEffect s =
     s\<lparr>timers := (if cleanup s
                  then filter (\<lambda>t. Some (handle_t t) \<noteq> outputSaveTimerRef s) (timers s)
                  else timers s),
       cleanup := False\<rparr>"
  using assms by (simp add: outputSaveEffect_def Let_def clear_only_timers)

lemma elapse_nothing_due:
  "nothing_due d s \<Longrightarrow> elapse b d s = ([], s\<lparr>clock := clock s + d\<rparr>)"
proof -
  assume n: "nothing_due d s"
  then have 1: "filter (\<lambda>t. due_t t \<le> clock s + d) (timers s) = []"
    by (auto simp: nothing_due_def list_all_iff filter_empty_conv)
  from n have 2: "filter (\<lambda>t. clock s + d < due_t t) (timers s) = timers s"
    by (auto simp: nothing_due_def list_all_iff filter_id_conv)
  from 1 2 show ?thesis by (simp add: elapse_def Let_def)
qed

lemma elapse_fires:
  assumes "timers s = [t]" "due_t t \<le> clock s + d"
  shows "elapse b d s = outputSaveCallback b t (s\<lparr>clock := clock s + d, timers := []\<rparr>)"
  using assms by (simp add: elapse_def Let_def split: prod.splits)

lemma callback_calls:
  "fst (outputSaveCallback b t s) =
     [Save_settings (withOutputDirectories (settingsRef s) (renameOutputDir_t t)
        (deleteRetreatDir_t t) (compressOutputDir_t t) (flattenOutputDir_t t))]"
  by (simp add: outputSaveCallback_def Let_def)

lemma callback_keeps:
  "timers (snd (outputSaveCallback b t s)) = timers s"
  "outputSaveTimerRef (snd (outputSaveCallback b t s)) = outputSaveTimerRef s"
  "settingsLoadedRef (snd (outputSaveCallback b t s)) = settingsLoadedRef s"
  by (simp_all add: outputSaveCallback_def Let_def split: sum.splits)

lemma run_timers_keeps:
  "timers (snd (run_timers b ts s)) = timers s
   \<and> outputSaveTimerRef (snd (run_timers b ts s)) = outputSaveTimerRef s
   \<and> settingsLoadedRef (snd (run_timers b ts s)) = settingsLoadedRef s"
proof (induction ts arbitrary: s)
  case Nil
  then show ?case by simp
next
  case (Cons t ts)
  obtain calls s1 where c: "outputSaveCallback b t s = (calls, s1)"
    by (cases "outputSaveCallback b t s")
  obtain later s2 where r: "run_timers b ts s1 = (later, s2)" by (cases "run_timers b ts s1")
  from callback_keeps[of b t s] c
  have "timers s1 = timers s" "outputSaveTimerRef s1 = outputSaveTimerRef s"
    "settingsLoadedRef s1 = settingsLoadedRef s" by simp_all
  with Cons.IH[of s1] c r show ?case by simp
qed

lemma filter_short: "length xs \<le> Suc 0 \<Longrightarrow> length (filter P xs) \<le> Suc 0"
  by (rule le_trans[OF length_filter_le])

lemma elapse_tidy: "tidy s \<Longrightarrow> tidy (snd (elapse b d s))"
proof -
  assume t: "tidy s"
  let ?s = "s\<lparr>clock := clock s + d, timers := filter (\<lambda>t. clock s + d < due_t t) (timers s)\<rparr>"
  from t have "tidy ?s" by (auto simp: tidy_def list_all_iff filter_short)
  with run_timers_keeps[of b "filter (\<lambda>t. due_t t \<le> clock s + d) (timers s)" ?s]
  show ?thesis by (simp add: elapse_def Let_def tidy_def)
qed

lemma effect_tidy: "tidy s \<Longrightarrow> tidy (outputSaveEffect s)"
proof (cases "settingsLoadedRef s")
  case True
  assume "tidy s"
  with True show ?thesis by (simp add: effect_loaded) (simp add: tidy_def)
next
  case False
  assume t: "tidy s"
  from t False show ?thesis by (auto simp: effect_unloaded tidy_def list_all_iff filter_short)
qed

lemma after_render_tidy: "tidy s \<Longrightarrow> tidy (after_render before s)"
  by (simp add: after_render_def effect_tidy)

lemma handle_tidy: "tidy s \<Longrightarrow> tidy (timed_handle e s)"
proof (cases e)
  case (LoadAnswered a)
  assume t: "tidy s"
  show ?thesis
  proof (cases a)
    case (Inl msg)
    with t LoadAnswered show ?thesis by (simp add: tidy_def)
  next
    case (Inr l)
    from t have "tidy (s\<lparr>app := onLoaded l (app s), settingsRef := loadedSettings l,
                          settingsLoadedRef := True\<rparr>)"
      by (simp add: tidy_def)
    then show ?thesis unfolding LoadAnswered Inr timed_handle.simps by (rule after_render_tidy)
  qed
next
  case (EditOutputDir f v)
  assume t: "tidy s"
  then have "tidy (s\<lparr>app := setOutputDir f v (app s)\<rparr>)" by (simp add: tidy_def)
  then show ?thesis unfolding EditOutputDir timed_handle.simps by (rule after_render_tidy)
next
  case Idle
  assume "tidy s"
  with Idle show ?thesis by simp
qed

lemma tidy_timed_run: "tidy s \<Longrightarrow> tidy (snd (timed_run s evs))"
proof (induction evs arbitrary: s)
  case Nil
  then show ?case by simp
next
  case (Cons x evs)
  obtain d b e where x: "x = (d, b, e)" by (cases x)
  obtain calls s1 where el: "elapse b d s = (calls, s1)" by (cases "elapse b d s")
  from elapse_tidy[OF Cons.prems, of b d] el have "tidy s1" by simp
  then have "tidy (timed_handle e s1)" by (rule handle_tidy)
  from Cons.IH[OF this] have "tidy (snd (timed_run (timed_handle e s1) evs))" .
  with x el show ?case by (cases "timed_run (timed_handle e s1) evs") simp
qed

lemma tidy_init: "tidy (autosave_init n)"
  by (simp add: tidy_def autosave_init_def)

lemma edit_step:
  assumes "settingsLoadedRef s" "tidy s" "nothing_due d s" "changes (EditOutputDir f v) (app s)"
  shows "timed_run s [(d, b, EditOutputDir f v)] =
     ([], s\<lparr>clock := clock s + d, app := setOutputDir f v (app s),
            timers := [\<lparr>handle_t = nextHandle s, due_t = clock s + d + 400,
                        renameOutputDir_t = renameOutputDir (setOutputDir f v (app s)),
                        deleteRetreatDir_t = deleteRetreatDir (setOutputDir f v (app s)),
                        compressOutputDir_t = compressOutputDir (setOutputDir f v (app s)),
                        flattenOutputDir_t = flattenOutputDir (setOutputDir f v (app s))\<rparr>],
            nextHandle := nextHandle s + 1,
            outputSaveTimerRef := Some (nextHandle s),
            cleanup := True\<rparr>)"
proof -
  let ?s = "s\<lparr>clock := clock s + d, app := setOutputDir f v (app s)\<rparr>"
  from assms(1,2) have l: "settingsLoadedRef ?s" and t: "tidy ?s" by (simp_all add: tidy_def)
  from assms(4) have "after_render (app s) ?s = outputSaveEffect ?s"
    by (simp add: after_render_def)
  then show ?thesis
    by (simp add: elapse_nothing_due[OF assms(3)] effect_loaded[OF l t])
qed

lemma edit_armed:
  assumes "settingsLoadedRef s" "tidy s" "nothing_due d s" "changes (EditOutputDir f v) (app s)"
  shows "fst (timed_run s [(d, b, EditOutputDir f v)]) = []
     \<and> armed (snd (timed_run s [(d, b, EditOutputDir f v)]))
     \<and> settingsRef (snd (timed_run s [(d, b, EditOutputDir f v)])) = settingsRef s"
  unfolding edit_step[OF assms]
  using assms(1) by (simp add: armed_def tidy_def captured_def outputDirs_def)

lemma armed_nothing_due: "armed s \<Longrightarrow> d < 400 \<Longrightarrow> nothing_due d s"
  by (auto simp: armed_def nothing_due_def map_eq_Cons_conv)

lemma burst_quiet:
  "armed s \<Longrightarrow> burst s evs \<Longrightarrow>
   fst (timed_run s evs) = [] \<and> armed (snd (timed_run s evs))
   \<and> settingsRef (snd (timed_run s evs)) = settingsRef s"
proof (induction evs arbitrary: s)
  case Nil
  then show ?case by simp
next
  case (Cons x evs)
  obtain d b e where x: "x = (d, b, e)" by (cases x)
  from Cons.prems(2) x have d: "d < 400" and ch: "changes e (app s)"
    and rest: "burst (snd (timed_run s [(d, b, e)])) evs" by simp_all
  from ch obtain f v where e: "e = EditOutputDir f v" by (cases e) simp_all
  obtain c1 s1 where r1: "timed_run s [(d, b, EditOutputDir f v)] = (c1, s1)"
    by (cases "timed_run s [(d, b, EditOutputDir f v)]")
  from Cons.prems(1) have l: "settingsLoadedRef s" and t: "tidy s" by (simp_all add: armed_def)
  from edit_armed[OF l t armed_nothing_due[OF Cons.prems(1) d], of f v b] ch e r1
  have s1: "c1 = []" "armed s1" "settingsRef s1 = settingsRef s" by simp_all
  from rest e r1 have "burst s1 evs" by simp
  from Cons.IH[OF s1(2) this] s1(3)
  have "fst (timed_run s1 evs) = [] \<and> armed (snd (timed_run s1 evs))
     \<and> settingsRef (snd (timed_run s1 evs)) = settingsRef s" by simp
  moreover have "timed_run s (x # evs) = (case timed_run s1 evs of (c2, s2) \<Rightarrow> (c1 @ c2, s2))"
    unfolding x e timed_run_Cons[of s "(d, b, EditOutputDir f v)" evs] r1 by simp
  ultimately show ?case using s1(1) by (cases "timed_run s1 evs") simp
qed

lemma armed_idle_short:
  "armed s \<Longrightarrow> d < 400 \<Longrightarrow> fst (timed_run s [(d, b, Idle)]) = []"
  by (simp add: elapse_nothing_due[OF armed_nothing_due])

lemma armed_idle_fires:
  assumes "armed s" "400 \<le> d"
  shows "fst (timed_run s [(d, b, Idle)]) = [Save_settings (saved_settings (settingsRef s) (app s))]
     \<and> timers (snd (timed_run s [(d, b, Idle)])) = []"
proof -
  from assms(1) obtain t where t: "timers s = [t]" "due_t t = clock s + 400"
    "captured t = outputDirs (app s)"
    by (auto simp: armed_def map_eq_Cons_conv)
  from t(2) assms(2) have "due_t t \<le> clock s + d" by simp
  from elapse_fires[OF t(1) this, of b] callback_calls[of b t "s\<lparr>clock := clock s + d, timers := []\<rparr>"]
    callback_keeps(1)[of b t "s\<lparr>clock := clock s + d, timers := []\<rparr>"] t(3)
  show ?thesis
    by (simp add: saved_settings_def captured_def outputDirs_def split: prod.splits)
qed

lemma quiet_idle:
  "timers s = [] \<Longrightarrow> timed_run s [(d, b, Idle)] = ([], s\<lparr>clock := clock s + d\<rparr>)"
  by (simp add: elapse_nothing_due nothing_due_def)

lemma unloaded_silent:
  "\<not> settingsLoadedRef s \<Longrightarrow> timers s = [] \<Longrightarrow> \<not> list_ex load_succeeds evs \<Longrightarrow>
   fst (timed_run s evs) = [] \<and> \<not> settingsLoadedRef (snd (timed_run s evs))
   \<and> timers (snd (timed_run s evs)) = []"
proof (induction evs arbitrary: s)
  case Nil
  then show ?case by simp
next
  case (Cons x evs)
  obtain d b e where x: "x = (d, b, e)" by (cases x)
  from Cons.prems(2) have el: "elapse b d s = ([], s\<lparr>clock := clock s + d\<rparr>)"
    by (simp add: elapse_nothing_due nothing_due_def)
  let ?s1 = "timed_handle e (s\<lparr>clock := clock s + d\<rparr>)"
  from Cons.prems(3) x have ns: "\<not> load_succeeds (d, b, e)" and rest: "\<not> list_ex load_succeeds evs"
    by simp_all
  have "\<not> settingsLoadedRef ?s1 \<and> timers ?s1 = []"
  proof (cases e)
    case (LoadAnswered a)
    with ns obtain msg where "a = Inl msg" by (cases a) simp_all
    with LoadAnswered Cons.prems(1,2) show ?thesis by simp
  next
    case (EditOutputDir f v)
    with Cons.prems(1,2) show ?thesis
      by (simp add: after_render_def effect_unloaded)
  next
    case Idle
    with Cons.prems(1,2) show ?thesis by simp
  qed
  then have "\<not> settingsLoadedRef ?s1" "timers ?s1 = []" by simp_all
  from Cons.IH[OF this rest] x el show ?case by (cases "timed_run ?s1 evs") simp
qed


text \<open>
  C7, as amended. Once the settings are loaded, with at most the timeout of the
  reference pending: an edit that changes one of the four output directory texts, made
  when no save is due before it, invokes nothing, and neither do the edits of a burst
  after it, each changing a text less than 400 ms after the event before. After them
  one save is pending, due 400 ms after the last edit, with the four texts as they are
  then. If nothing happens for less than 400 ms, nothing is invoked; if nothing happens
  for 400 ms or more, exactly one command is invoked, however long the wait:
  \<^verbatim>\<open>save_settings\<close> with the settings of the reference in which the four directories are
  the final texts, trimmed; no timeout is left then. While the settings are not loaded
  (no timeout pending, no load answered with settings), a session invokes nothing. In
  every session from the first render at most one timeout is pending, the one whose
  handle the reference holds.
\<close>

theorem output_dirs_saved_once:
  "(settingsLoadedRef s \<and> tidy s \<and> nothing_due d0 s \<and> changes (EditOutputDir f v) (app s)
      \<and> burst (snd (timed_run s [(d0, b0, EditOutputDir f v)])) evs \<longrightarrow>
        fst (timed_run s ((d0, b0, EditOutputDir f v) # evs)) = []
      \<and> armed (snd (timed_run s ((d0, b0, EditOutputDir f v) # evs)))
      \<and> (d < 400 \<longrightarrow>
           fst (timed_run s ((d0, b0, EditOutputDir f v) # evs @ [(d, b, Idle)])) = [])
      \<and> (400 \<le> d \<longrightarrow>
           fst (timed_run s ((d0, b0, EditOutputDir f v) # evs @ [(d, b, Idle), (d', b', Idle)]))
             = [Save_settings
                  (saved_settings (settingsRef s)
                     (app (snd (timed_run s ((d0, b0, EditOutputDir f v) # evs)))))]
           \<and> timers (snd (timed_run s ((d0, b0, EditOutputDir f v) # evs @ [(d, b, Idle)]))) = []))
   \<and> (\<not> settingsLoadedRef u \<and> timers u = [] \<and> \<not> list_ex load_succeeds evs' \<longrightarrow>
        fst (timed_run u evs') = [])
   \<and> tidy (snd (timed_run (autosave_init n) evs''))"
proof -
  let ?first = "(d0, b0, EditOutputDir f v)"
  have loaded: "fst (timed_run s (?first # evs)) = []
      \<and> armed (snd (timed_run s (?first # evs)))
      \<and> (d < 400 \<longrightarrow> fst (timed_run s (?first # evs @ [(d, b, Idle)])) = [])
      \<and> (400 \<le> d \<longrightarrow>
           fst (timed_run s (?first # evs @ [(d, b, Idle), (d', b', Idle)]))
             = [Save_settings (saved_settings (settingsRef s) (app (snd (timed_run s (?first # evs)))))]
           \<and> timers (snd (timed_run s (?first # evs @ [(d, b, Idle)]))) = [])"
    if a: "settingsLoadedRef s" "tidy s" "nothing_due d0 s" "changes (EditOutputDir f v) (app s)"
      and bu: "burst (snd (timed_run s [?first])) evs"
  proof -
    obtain c1 s1 where r1: "timed_run s [?first] = (c1, s1)" by (cases "timed_run s [?first]")
    from edit_armed[OF a, of b0] r1
    have s1: "c1 = []" "armed s1" "settingsRef s1 = settingsRef s" by simp_all
    obtain c2 s2 where r2: "timed_run s1 evs = (c2, s2)" by (cases "timed_run s1 evs")
    from bu r1 have "burst s1 evs" by simp
    from burst_quiet[OF s1(2) this] r2 s1(3)
    have s2: "c2 = []" "armed s2" "settingsRef s2 = settingsRef s" by simp_all
    have whole: "timed_run s (?first # evs) = ([], s2)"
      using r1 r2 s1(1) s2(1) unfolding timed_run_Cons[of s ?first evs] by simp
    have ap: "timed_run s (?first # evs @ ys) = timed_run s2 ys" for ys
      using timed_run_append[of s "?first # evs" ys] unfolding whole
      by (cases "timed_run s2 ys") simp
    obtain c3 s3 where r3: "timed_run s2 [(d, b, Idle)] = (c3, s3)"
      by (cases "timed_run s2 [(d, b, Idle)]")
    have short: "fst (timed_run s2 [(d, b, Idle)]) = []" if "d < 400"
      using armed_idle_short[OF s2(2) that] .
    have long: "fst (timed_run s2 [(d, b, Idle), (d', b', Idle)])
          = [Save_settings (saved_settings (settingsRef s) (app s2))]
        \<and> timers (snd (timed_run s2 [(d, b, Idle)])) = []" if "400 \<le> d"
    proof -
      from armed_idle_fires[OF s2(2) that, of b] r3 s2(3)
      have 3: "c3 = [Save_settings (saved_settings (settingsRef s) (app s2))]" "timers s3 = []"
        by simp_all
      have "fst (timed_run s2 [(d, b, Idle), (d', b', Idle)])
          = [Save_settings (saved_settings (settingsRef s) (app s2))]"
        unfolding timed_run_Cons[of s2 "(d, b, Idle)" "[(d', b', Idle)]"] r3 prod.case
          quiet_idle[OF 3(2), of d' b'] 3(1) by simp
      with r3 3(2) show ?thesis by simp
    qed
    from whole s2(2) short long show ?thesis
      by (simp only: ap[of "[(d, b, Idle)]"] ap[of "[(d, b, Idle), (d', b', Idle)]"]) simp
  qed
  have unloaded: "fst (timed_run u evs') = []"
    if "\<not> settingsLoadedRef u" "timers u = []" "\<not> list_ex load_succeeds evs'"
    using unloaded_silent[OF that] by simp
  have inv: "tidy (snd (timed_run (autosave_init n) evs''))"
    by (rule tidy_timed_run) (rule tidy_init)
  from loaded unloaded inv show ?thesis by blast
qed

lemma loaded_example_eq:
  "loaded_example =
     (autosave_init ''default'')
       \<lparr>clock := 20, app := onLoaded \<lparr>loadedSettings = dark_settings, ffprobe = False\<rparr> (initial_state ''default''),
        settingsRef := dark_settings, settingsLoadedRef := True\<rparr>"
  by (simp add: loaded_example_def elapse_def Let_def autosave_init_def after_render_def
      outputDirs_def onLoaded_def dark_settings_def directory_or_empty_def initial_state_def)

lemma loaded_example_dirs: "outputDirs (app loaded_example) = [[], [], [], []]"
  by (simp add: loaded_example_eq outputDirs_def onLoaded_def dark_settings_def
      directory_or_empty_def initial_state_def)

theorem output_dirs_saved_once_witness:
  "settingsLoadedRef loaded_example \<and> tidy loaded_example \<and> nothing_due 1000 loaded_example
   \<and> changes (EditOutputDir CompressOutput ''C:/ou'') (app loaded_example)
   \<and> burst (snd (timed_run loaded_example
                   [(1000, example_backend, EditOutputDir CompressOutput ''C:/ou'')]))
       [(150, example_backend, EditOutputDir CompressOutput ''C:/out ''),
        (399, example_backend, EditOutputDir RenameOutput ''D:/named'')]
   \<and> fst (timed_run loaded_example
       [(1000, example_backend, EditOutputDir CompressOutput ''C:/ou''),
        (150, example_backend, EditOutputDir CompressOutput ''C:/out ''),
        (399, example_backend, EditOutputDir RenameOutput ''D:/named''),
        (400, example_backend, Idle), (60000, example_backend, Idle)])
     = [Save_settings
          \<lparr>deletePatterns = [], renameTemplates = [],
           outputDirectories =
             [(''rename'', ''D:/named''), (''delete_retreat'', []), (''compress'', ''C:/out''),
              (''flatten'', [])],
           theme = Dark\<rparr>]
   \<and> fst (timed_run loaded_example
       [(1000, example_backend, EditOutputDir CompressOutput ''C:/ou''),
        (150, example_backend, EditOutputDir CompressOutput ''C:/out ''),
        (399, example_backend, EditOutputDir RenameOutput ''D:/named''),
        (399, example_backend, Idle)]) = []
   \<and> \<not> settingsLoadedRef (autosave_init ''default'')
   \<and> timers (autosave_init ''default'') = []
   \<and> \<not> list_ex load_succeeds
         [(700, example_backend, EditOutputDir FlattenOutput ''E:/flat''),
          (5000, example_backend, Idle)]
   \<and> fst (timed_run (autosave_init ''default'')
         [(700, example_backend, EditOutputDir FlattenOutput ''E:/flat''),
          (5000, example_backend, Idle)]) = []"
proof -
  let ?first = "(1000, example_backend, EditOutputDir CompressOutput ''C:/ou'')"
  let ?rest = "[(150, example_backend, EditOutputDir CompressOutput ''C:/out ''),
        (399, example_backend, EditOutputDir RenameOutput ''D:/named'')]"
  have l: "settingsLoadedRef loaded_example" by (simp add: loaded_example_eq)
  have t: "tidy loaded_example" by (simp add: loaded_example_eq tidy_def autosave_init_def)
  have n: "nothing_due 1000 loaded_example"
    by (simp add: loaded_example_eq nothing_due_def autosave_init_def)
  have c: "changes (EditOutputDir CompressOutput ''C:/ou'') (app loaded_example)"
    using loaded_example_dirs by (simp add: outputDirs_def)
  have b: "burst (snd (timed_run loaded_example [?first])) ?rest"
    by (simp add: loaded_example_eq autosave_init_def elapse_def Let_def after_render_def
        outputSaveEffect_def clearOutputSaveTimer_def clearTimeout_def outputDirs_def onLoaded_def
        dark_settings_def directory_or_empty_def initial_state_def)
  have f: "saved_settings (settingsRef loaded_example) (app (snd (timed_run loaded_example (?first # ?rest))))
     = \<lparr>deletePatterns = [], renameTemplates = [],
           outputDirectories =
             [(''rename'', ''D:/named''), (''delete_retreat'', []), (''compress'', ''C:/out''),
              (''flatten'', [])],
           theme = Dark\<rparr>"
    by (simp add: loaded_example_eq autosave_init_def elapse_def Let_def after_render_def
        outputSaveEffect_def clearOutputSaveTimer_def clearTimeout_def outputDirs_def onLoaded_def
        dark_settings_def directory_or_empty_def initial_state_def saved_settings_def
        withOutputDirectories_def trim_def js_whitespace_def)
  from output_dirs_saved_once[of loaded_example 1000 CompressOutput "''C:/ou''" example_backend ?rest
      400 example_backend 60000 example_backend] l t n c b
  have 1: "fst (timed_run loaded_example (?first # ?rest @ [(400, example_backend, Idle), (60000, example_backend, Idle)]))
     = [Save_settings (saved_settings (settingsRef loaded_example) (app (snd (timed_run loaded_example (?first # ?rest)))))]"
    by simp
  from output_dirs_saved_once[of loaded_example 1000 CompressOutput "''C:/ou''" example_backend ?rest
      399 example_backend] l t n c b
  have 2: "fst (timed_run loaded_example (?first # ?rest @ [(399, example_backend, Idle)])) = []"
    by simp
  have u: "\<not> settingsLoadedRef (autosave_init ''default'')" "timers (autosave_init ''default'') = []"
    by (simp_all add: autosave_init_def)
  have v: "\<not> list_ex load_succeeds
         [(700, example_backend, EditOutputDir FlattenOutput ''E:/flat''),
          (5000, example_backend, Idle)]" by simp
  from output_dirs_saved_once[of _ _ _ _ _ _ _ _ _ _ "autosave_init ''default''"
      "[(700, example_backend, EditOutputDir FlattenOutput ''E:/flat''),
          (5000, example_backend, Idle)]"] u v
  have 3: "fst (timed_run (autosave_init ''default'')
         [(700, example_backend, EditOutputDir FlattenOutput ''E:/flat''),
          (5000, example_backend, Idle)]) = []" by blast
  from l t n c b 1 2 3 u v show ?thesis unfolding f by simp
qed


text \<open>
  When the load is rejected the reference stays unset, and an edit is never saved,
  however long the wait. And a save carries the text trimmed, which is not the text of
  the field when that begins or ends with white space.
\<close>

theorem output_dirs_unloaded_counterexample:
  "fst (timed_run (autosave_init ''default'')
         [(20, example_backend, LoadAnswered (Inl ''denied'')),
          (1000, example_backend, EditOutputDir CompressOutput ''C:/out''),
          (400, example_backend, Idle), (60000, example_backend, Idle)]) = []
   \<and> compressOutputDir (app (snd (timed_run (autosave_init ''default'')
         [(20, example_backend, LoadAnswered (Inl ''denied'')),
          (1000, example_backend, EditOutputDir CompressOutput ''C:/out''),
          (400, example_backend, Idle), (60000, example_backend, Idle)]))) = ''C:/out''
   \<and> fst (timed_run loaded_example
         [(1000, example_backend, EditOutputDir CompressOutput '' C:/out''),
          (400, example_backend, Idle)])
     = [Save_settings
          \<lparr>deletePatterns = [], renameTemplates = [],
           outputDirectories =
             [(''rename'', []), (''delete_retreat'', []), (''compress'', ''C:/out''), (''flatten'', [])],
           theme = Dark\<rparr>]
   \<and> compressOutputDir (app (snd (timed_run loaded_example
         [(1000, example_backend, EditOutputDir CompressOutput '' C:/out''),
          (400, example_backend, Idle)]))) = '' C:/out''"
  by (simp add: loaded_example_eq autosave_init_def elapse_def Let_def after_render_def
      outputSaveEffect_def clearOutputSaveTimer_def clearTimeout_def outputDirs_def onLoaded_def
      dark_settings_def directory_or_empty_def initial_state_def addToast_def
      outputSaveCallback_def withOutputDirectories_def example_backend_def trim_def js_whitespace_def)

end
